theory Spec2Isabelle
  imports Complex_Main "HOL-Library.Multiset"
begin

section \<open>Values delivered by the CSV reader\<close>

text \<open>
  The three scripts read a results table with pandas and aggregate it per group.
  A cell of a column that the code turns into numbers is modelled by what the reader
  hands to the code: a finite number (the value of the float64 or int64 read), a text
  that is not a number, or a missing value (NaN). Infinities in the file are outside the
  model. Texts are lists of 8-bit characters (code points up to 255).
\<close>

datatype cell = Num rat | Txt string | NA

text \<open>
  A cell of a column that the code turns into text with \<^verbatim>\<open>astype(str)\<close>. What the text is
  depends on how the reader typed the column: an integer of an int64 column, a float of a
  float64 column, a text of an object column, or a missing value.
\<close>

datatype key_cell = IntCell int | FloatCell rat | NaNCell | TextCell string

datatype py_error = ValueError | IntCastingNaNError | IndexError

text \<open>\<^verbatim>\<open>pd.to_numeric(col, errors="coerce")\<close>, cell by cell: what is not a number becomes NaN.\<close>

fun to_numeric :: "cell \<Rightarrow> rat option" where
  "to_numeric (Num q) = Some q"
| "to_numeric (Txt s) = None"
| "to_numeric NA = None"

text \<open>\<^verbatim>\<open>.fillna(d)\<close> on one value.\<close>

definition fillna :: "rat \<Rightarrow> rat option \<Rightarrow> rat" where
  "fillna d v = (case v of None \<Rightarrow> d | Some q \<Rightarrow> q)"

text \<open>Python's \<^verbatim>\<open>int(x)\<close> on a finite number truncates towards zero.\<close>

definition py_int :: "rat \<Rightarrow> int" where
  "py_int q = (if 0 \<le> q then \<lfloor>q\<rfloor> else \<lceil>q\<rceil>)"

text \<open>\<^verbatim>\<open>int(x)\<close> on a value that may be NaN: \<^verbatim>\<open>int(float("nan"))\<close> raises ValueError.\<close>

definition py_int_nan :: "rat option \<Rightarrow> py_error + int" where
  "py_int_nan v = (case v of None \<Rightarrow> Inl ValueError | Some q \<Rightarrow> Inr (py_int q))"

text \<open>
  \<^verbatim>\<open>.astype(int)\<close> on a float64 without NaN is a cast to int64: it truncates, and a value
  out of the range of int64 becomes the least int64.
\<close>

definition astype_int64 :: "rat \<Rightarrow> int" where
  "astype_int64 q =
     (let i = py_int q in if - (2 ^ 63) \<le> i \<and> i < 2 ^ 63 then i else - (2 ^ 63))"

subsection \<open>Floating-point arithmetic\<close>

text \<open>
  The percentages are computed in float64. A float64 is modelled by the rational it
  denotes, or an infinity; every operation is the exact one followed by rounding to the
  nearest float64, a tie going to the even significand (IEEE 754 binary64: 53 bits of
  significand, least exponent \<open>-1074\<close>, overflow from \<open>2 ^ 1024\<close>). NaN does not arise
  on the paths modelled, and the sign of zero is not modelled.
\<close>

datatype float64 = Finite rat | PosInf | NegInf

definition pow2 :: "int \<Rightarrow> rat" where
  "pow2 e = (if 0 \<le> e then 2 ^ nat e else 1 / 2 ^ nat (- e))"

function bit_length :: "nat \<Rightarrow> nat" where
  "bit_length n = (if n = 0 then 0 else Suc (bit_length (n div 2)))"
  by pat_completeness auto
termination
  by (relation "measure (\<lambda>n. n)") auto

declare bit_length.simps [simp del]

text \<open>The exponent of a positive number: the \<open>e\<close> with \<open>2 ^ e \<le> q < 2 ^ (e + 1)\<close>.\<close>

definition ilog2 :: "rat \<Rightarrow> int" where
  "ilog2 q =
     (if 1 \<le> q then int (bit_length (nat \<lfloor>q\<rfloor>)) - 1
      else - int (bit_length (nat (\<lceil>1 / q\<rceil> - 1))))"

definition round_half_even :: "rat \<Rightarrow> int" where
  "round_half_even q =
     (let f = \<lfloor>q\<rfloor>; d = q - of_int f
      in if d < 1 / 2 then f else if 1 / 2 < d then f + 1 else if even f then f else f + 1)"

definition nearest_double :: "rat \<Rightarrow> rat" where
  "nearest_double q =
     (if q = 0 then 0
      else let e = max (ilog2 \<bar>q\<bar> - 52) (- 1074)
           in of_int (round_half_even (q / pow2 e)) * pow2 e)"

definition round_to_double :: "rat \<Rightarrow> float64" where
  "round_to_double q =
     (let r = nearest_double q
      in if 2 ^ 1024 \<le> r then PosInf else if r \<le> - (2 ^ 1024) then NegInf else Finite r)"

text \<open>
  The float of a Python int, as the mixed operations \<^verbatim>\<open>votes * 100.0\<close> and
  \<^verbatim>\<open>x / total_valid\<close> take it. Every int converted here was read from a float64 or an
  int64, so it is below \<open>2 ^ 1024\<close> and the conversion cannot overflow.
\<close>

definition float_of_int :: "int \<Rightarrow> float64" where
  "float_of_int i = round_to_double (of_int i)"

text \<open>\<^verbatim>\<open>x * c\<close> and \<^verbatim>\<open>x / t\<close> for a finite float \<open>c > 0\<close>, \<open>t > 0\<close>.\<close>

definition fmul_pos :: "float64 \<Rightarrow> rat \<Rightarrow> float64" where
  "fmul_pos x c =
     (case x of Finite a \<Rightarrow> round_to_double (a * c) | PosInf \<Rightarrow> PosInf | NegInf \<Rightarrow> NegInf)"

definition fdiv_pos :: "float64 \<Rightarrow> rat \<Rightarrow> float64" where
  "fdiv_pos x t =
     (case x of Finite a \<Rightarrow> round_to_double (a / t) | PosInf \<Rightarrow> PosInf | NegInf \<Rightarrow> NegInf)"

text \<open>
  \<^verbatim>\<open>round(x, 2)\<close>: the float nearest to the decimal with two places that is nearest to
  the exact value of \<open>x\<close>; an infinity is returned as it is.
\<close>

definition py_round2 :: "float64 \<Rightarrow> float64" where
  "py_round2 x =
     (case x of
        Finite a \<Rightarrow> round_to_double (of_int (round_half_even (a * 100)) / 100)
      | PosInf \<Rightarrow> PosInf
      | NegInf \<Rightarrow> NegInf)"

subsection \<open>Strings\<close>

definition digit_char :: "nat \<Rightarrow> char" where
  "digit_char d = ''0123456789'' ! d"

function show_nat :: "nat \<Rightarrow> string" where
  "show_nat n = (if n < 10 then [digit_char n] else show_nat (n div 10) @ [digit_char (n mod 10)])"
  by pat_completeness auto
termination
  by (relation "measure (\<lambda>n. n)") auto

declare show_nat.simps [simp del]

text \<open>\<^verbatim>\<open>str(i)\<close> for an integer.\<close>

definition show_int :: "int \<Rightarrow> string" where
  "show_int i = (if i < 0 then CHR ''-'' # show_nat (nat (- i)) else show_nat (nat i))"

text \<open>
  \<^verbatim>\<open>astype(str)\<close> and \<^verbatim>\<open>str(x)\<close> on a cell. The text of a float is Python's shortest
  representation (\<^verbatim>\<open>1.1\<close>, \<^verbatim>\<open>0.0\<close>, \<^verbatim>\<open>37.0\<close>), taken as the parameter \<open>float_str\<close>.
\<close>

definition astype_str :: "(rat \<Rightarrow> string) \<Rightarrow> key_cell \<Rightarrow> string" where
  "astype_str float_str c =
     (case c of
        IntCell i \<Rightarrow> show_int i
      | FloatCell q \<Rightarrow> float_str q
      | NaNCell \<Rightarrow> ''nan''
      | TextCell s \<Rightarrow> s)"

text \<open>
  \<^verbatim>\<open>s.zfill(width)\<close>: zeros are added on the left up to the width, after a leading sign.
\<close>

definition zfill :: "nat \<Rightarrow> string \<Rightarrow> string" where
  "zfill width s =
     (case s of
        [] \<Rightarrow> replicate width CHR ''0''
      | c # rest \<Rightarrow>
          if c = CHR ''+'' \<or> c = CHR ''-''
          then c # replicate (width - length s) CHR ''0'' @ rest
          else replicate (width - length s) CHR ''0'' @ s)"

text \<open>The characters below 256 that Python's \<^verbatim>\<open>str.strip()\<close> removes.\<close>

definition is_space :: "char \<Rightarrow> bool" where
  "is_space c =
     (c \<in> set [CHR '' '', CHR 0x09, CHR 0x0A, CHR 0x0B, CHR 0x0C, CHR 0x0D,
               CHR 0x1C, CHR 0x1D, CHR 0x1E, CHR 0x1F, CHR 0x85, CHR 0xA0])"

text \<open>\<^verbatim>\<open>s.strip()\<close>.\<close>

definition strip :: "string \<Rightarrow> string" where
  "strip s = rev (dropWhile is_space (rev (dropWhile is_space s)))"

text \<open>The characters below 256 that JavaScript's \<^verbatim>\<open>trim()\<close> removes.\<close>

definition is_js_space :: "char \<Rightarrow> bool" where
  "is_js_space c =
     (c \<in> set [CHR '' '', CHR 0x09, CHR 0x0A, CHR 0x0B, CHR 0x0C, CHR 0x0D, CHR 0xA0])"

definition js_trim :: "string \<Rightarrow> string" where
  "js_trim s = rev (dropWhile is_js_space (rev (dropWhile is_js_space s)))"

subsection \<open>Raising and loops that may raise\<close>

definition bind_err :: "'e + 'a \<Rightarrow> ('a \<Rightarrow> 'e + 'b) \<Rightarrow> 'e + 'b" where
  "bind_err m f = (case m of Inl e \<Rightarrow> Inl e | Inr x \<Rightarrow> f x)"

text \<open>A loop over the rows whose body may raise: the first raise ends it.\<close>

fun traverse :: "('a \<Rightarrow> 'e + 'b) \<Rightarrow> 'a list \<Rightarrow> 'e + 'b list" where
  "traverse f [] = Inr []"
| "traverse f (x # xs) =
     (case f x of
        Inl e \<Rightarrow> Inl e
      | Inr y \<Rightarrow> (case traverse f xs of Inl e \<Rightarrow> Inl e | Inr ys \<Rightarrow> Inr (y # ys)))"

text \<open>\<^verbatim>\<open>.iloc[0]\<close> raises IndexError on an empty frame.\<close>

definition iloc0 :: "'a list \<Rightarrow> py_error + 'a" where
  "iloc0 xs = (case xs of [] \<Rightarrow> Inl IndexError | x # _ \<Rightarrow> Inr x)"

subsection \<open>Grouping and the nested result dictionary\<close>

text \<open>
  \<^verbatim>\<open>df.groupby(cols)\<close>: one group per distinct key, each holding the rows of that key in
  their order in the frame. pandas visits the groups in key order; the model visits them
  in order of first occurrence, which gives the same dictionary whenever the keys written
  are distinct.
\<close>

definition groupby :: "('a \<Rightarrow> 'k) \<Rightarrow> 'a list \<Rightarrow> ('k \<times> 'a list) list" where
  "groupby key xs = map (\<lambda>k. (k, filter (\<lambda>x. key x = k) xs)) (remdups (map key xs))"

text \<open>\<^verbatim>\<open>idx.setdefault(a, {})[b] = v\<close>.\<close>

definition setdefault_put :: "('a \<rightharpoonup> ('b \<rightharpoonup> 'v)) \<Rightarrow> 'a \<Rightarrow> 'b \<Rightarrow> 'v \<Rightarrow> ('a \<rightharpoonup> ('b \<rightharpoonup> 'v))" where
  "setdefault_put idx a b v = idx(a \<mapsto> (case idx a of None \<Rightarrow> Map.empty | Some d \<Rightarrow> d)(b \<mapsto> v))"

text \<open>
  The dictionary is read by pairs of keys (\<^verbatim>\<open>RESULTS_INDEX[poste][section]\<close> in the page).
\<close>

definition lookup2 :: "('a \<rightharpoonup> ('b \<rightharpoonup> 'v)) \<Rightarrow> 'a \<Rightarrow> 'b \<Rightarrow> 'v option" where
  "lookup2 idx a b = (case idx a of None \<Rightarrow> None | Some d \<Rightarrow> d b)"

subsection \<open>What pandas leaves open: the sort and the sum\<close>

text \<open>
  \<^verbatim>\<open>DataFrame.sort_values(col, ascending=False)\<close> is called with its default algorithm
  (\<^verbatim>\<open>kind="quicksort"\<close>), which pandas documents as not stable. The model therefore takes
  the sort as a parameter and assumes only what is documented: the result holds the same
  rows and is in descending order of the key.
\<close>

definition sorts_descending :: "('a \<Rightarrow> rat) \<Rightarrow> ('a list \<Rightarrow> 'a list) \<Rightarrow> bool" where
  "sorts_descending key srt =
     (\<forall>xs. mset (srt xs) = mset xs \<and> sorted_wrt (\<lambda>a b. key b \<le> key a) (srt xs))"

text \<open>
  Python's \<^verbatim>\<open>list.sort(key=k, reverse=True)\<close> and JavaScript's
  \<^verbatim>\<open>Array.prototype.sort\<close> are stable: descending by key, equal keys in their input order.
\<close>

definition stable_sort_desc :: "('a \<Rightarrow> 'k::{linorder,uminus}) \<Rightarrow> 'a list \<Rightarrow> 'a list" where
  "stable_sort_desc key xs = sort_key (\<lambda>x. - key x) xs"

text \<open>
  \<^verbatim>\<open>Series.sum()\<close> adds the values that are not NaN, in int64 or in float64 and in an order
  the code does not fix; the sum is a parameter too. Whatever the order, it is the exact
  sum when the values are integers whose absolute values add up to at most \<open>2 ^ 53\<close>,
  as vote counts do.
\<close>

definition sums_counts :: "(rat list \<Rightarrow> rat) \<Rightarrow> bool" where
  "sums_counts series_sum =
     (\<forall>vs. (\<forall>v\<in>set vs. of_int \<lfloor>v\<rfloor> = v) \<and> sum_list (map abs vs) \<le> 2 ^ 53
           \<longrightarrow> series_sum vs = sum_list vs)"


section \<open>genmap3.py\<close>

text \<open>
  One row of the CSV as \<^verbatim>\<open>build_results_index\<close> of genmap3.py reads it. Candidat and
  Parti are an optional text (None is a missing cell). The three total columns are
  optional in the file: the table says which are there.
\<close>

record csv_row =
  Poste :: key_cell
  ElectoralDistrictID :: cell
  Bureau :: key_cell
  Candidat :: "string option"
  Parti :: "string option"
  Votes :: cell
  TotalValidVotes :: cell
  TotalRejectedVotes :: cell
  TotalVotes :: cell

record csv_table =
  has_TotalValidVotes :: bool
  has_TotalRejectedVotes :: bool
  has_TotalVotes :: bool
  csv_rows :: "csv_row list"

text \<open>
  \<^verbatim>\<open>normalize_str\<close>: empty for a missing value; otherwise the no-break space becomes a
  space and the text is stripped. (The byte-order mark and the Unicode normalisation are
  beyond 8-bit characters.)
\<close>

definition normalize_str :: "string option \<Rightarrow> string" where
  "normalize_str v =
     (case v of
        None \<Rightarrow> []
      | Some s \<Rightarrow> strip (map (\<lambda>c. if c = CHR 0xA0 then CHR '' '' else c) s))"

text \<open>\<^verbatim>\<open>.str.replace(",", ".", regex=False)\<close>: every comma becomes a dot.\<close>

definition poste_norm :: "string \<Rightarrow> string" where
  "poste_norm s = map (\<lambda>c. if c = CHR '','' then CHR ''.'' else c) s"

text \<open>\<^verbatim>\<open>df["Poste"].astype(str).str.replace(",", ".", regex=False)\<close> on one cell (line 91).\<close>

definition poste_key :: "(rat \<Rightarrow> string) \<Rightarrow> key_cell \<Rightarrow> string" where
  "poste_key float_str c = poste_norm (astype_str float_str c)"

text \<open>A row of the frame after the column preparation (lines 90 to 104).\<close>

record df_row =
  PosteNorm :: string
  SectionCode :: string
  DistrictInt :: int
  BureauTxt :: string
  CandidatTxt :: "string option"
  PartiTxt :: "string option"
  VotesNum :: rat
  TotalValidNum :: "rat option"
  TotalRejectedNum :: "rat option"
  TotalVotesNum :: "rat option"

text \<open>
  \<^verbatim>\<open>pd.to_numeric(df["ElectoralDistrictID"], errors="coerce").astype(int)\<close> raises as soon
  as one identifier is not a number: \<^verbatim>\<open>astype(int)\<close> refuses NaN.
\<close>

definition prepare_row :: "(rat \<Rightarrow> string) \<Rightarrow> csv_row \<Rightarrow> py_error + df_row" where
  "prepare_row float_str r =
     (case to_numeric (ElectoralDistrictID r) of
        None \<Rightarrow> Inl IntCastingNaNError
      | Some d \<Rightarrow>
          Inr \<lparr> PosteNorm = poste_key float_str (Poste r),
                SectionCode =
                  zfill 3 (show_int (astype_int64 d)) @ ''-'' @
                  zfill 3 (astype_str float_str (Bureau r)),
                DistrictInt = astype_int64 d,
                BureauTxt = astype_str float_str (Bureau r),
                CandidatTxt = Candidat r,
                PartiTxt = Parti r,
                VotesNum = fillna 0 (to_numeric (Votes r)),
                TotalValidNum = to_numeric (TotalValidVotes r),
                TotalRejectedNum = to_numeric (TotalRejectedVotes r),
                TotalVotesNum = to_numeric (TotalVotes r) \<rparr>)"

definition prepare :: "(rat \<Rightarrow> string) \<Rightarrow> csv_row list \<Rightarrow> py_error + df_row list" where
  "prepare float_str rs = traverse (prepare_row float_str) rs"

text \<open>\<^verbatim>\<open>Series.max()\<close> skips NaN and is NaN when nothing is left.\<close>

definition col_max :: "rat option list \<Rightarrow> rat option" where
  "col_max vs = (case List.map_filter (\<lambda>v. v) vs of [] \<Rightarrow> None | q # qs \<Rightarrow> Some (fold max qs q))"

text \<open>
  The total of a group: None when the column is absent (Python's None) and when every
  value is NaN; both are tested together by
  \<^verbatim>\<open>t is not None and not pd.isna(t)\<close> wherever the value is used.
\<close>

definition group_total :: "bool \<Rightarrow> (df_row \<Rightarrow> rat option) \<Rightarrow> df_row list \<Rightarrow> rat option" where
  "group_total present col grp = (if present then col_max (map col grp) else None)"

definition positive :: "rat option \<Rightarrow> bool" where
  "positive t = (case t of None \<Rightarrow> False | Some v \<Rightarrow> 0 < v)"

text \<open>The base of the percentages (lines 121 to 125).\<close>

definition total_for_pct :: "rat option \<Rightarrow> rat option \<Rightarrow> rat option" where
  "total_for_pct total_valid_v total_votes_v =
     (if positive total_valid_v then total_valid_v
      else if positive total_votes_v then total_votes_v
      else None)"

text \<open>
  \<^verbatim>\<open>votes * 100.0 / total_for_pct\<close> in float64 (line 132), for a positive total; the base
  is \<^verbatim>\<open>float(total)\<close>, the float nearest to the total (the total itself unless it is an
  int64 beyond \<open>2 ^ 53\<close>).
\<close>

definition percent :: "int \<Rightarrow> rat \<Rightarrow> float64" where
  "percent v t = fdiv_pos (fmul_pos (float_of_int v) 100) (nearest_double t)"

record breakdown_row =
  candidat :: string
  parti :: string
  votes :: int
  pct :: "float64 option"

definition breakdown_of :: "rat option \<Rightarrow> df_row \<Rightarrow> breakdown_row" where
  "breakdown_of base r =
     \<lparr> candidat = normalize_str (CandidatTxt r),
       parti = normalize_str (PartiTxt r),
       votes = py_int (VotesNum r),
       pct = (case base of
                None \<Rightarrow> None
              | Some t \<Rightarrow> if 0 < t then Some (percent (py_int (VotesNum r)) t) else None) \<rparr>"

record section_info =
  winner_candidate :: string
  winner_party :: string
  winner_votes :: int
  total_valid :: "int option"
  total_rejected :: "int option"
  total_votes :: "int option"
  district_id :: string
  bureau :: string
  breakdown :: "breakdown_row list"

text \<open>The body of the loop over the groups (lines 111 to 157).\<close>

definition aggregate_group ::
  "(df_row list \<Rightarrow> df_row list) \<Rightarrow> csv_table \<Rightarrow> df_row list \<Rightarrow> py_error + section_info" where
  "aggregate_group sort_values t grp =
     bind_err (iloc0 (sort_values grp)) (\<lambda>winner_row.
       let tv = group_total (has_TotalValidVotes t) TotalValidNum grp;
           tr = group_total (has_TotalRejectedVotes t) TotalRejectedNum grp;
           tt = group_total (has_TotalVotes t) TotalVotesNum grp;
           base = total_for_pct tv tt;
           rows = map (breakdown_of base) grp
       in bind_err (iloc0 grp) (\<lambda>first.
            Inr \<lparr> winner_candidate = normalize_str (CandidatTxt winner_row),
                  winner_party = normalize_str (PartiTxt winner_row),
                  winner_votes = py_int (VotesNum winner_row),
                  total_valid = map_option py_int tv,
                  total_rejected = map_option py_int tr,
                  total_votes = map_option py_int tt,
                  district_id = show_int (DistrictInt first),
                  bureau = BureauTxt first,
                  breakdown = rows \<rparr>))"

type_synonym results_index = "string \<rightharpoonup> (string \<rightharpoonup> section_info)"

fun index_groups ::
  "(df_row list \<Rightarrow> df_row list) \<Rightarrow> csv_table \<Rightarrow> ((string \<times> string) \<times> df_row list) list
     \<Rightarrow> results_index \<Rightarrow> py_error + results_index" where
  "index_groups sort_values t [] idx = Inr idx"
| "index_groups sort_values t (((poste, sec_code), grp) # gs) idx =
     (case aggregate_group sort_values t grp of
        Inl e \<Rightarrow> Inl e
      | Inr info \<Rightarrow> index_groups sort_values t gs (setdefault_put idx poste sec_code info))"

definition genmap3_build_results_index ::
  "(rat \<Rightarrow> string) \<Rightarrow> (df_row list \<Rightarrow> df_row list) \<Rightarrow> csv_table \<Rightarrow> py_error + results_index" where
  "genmap3_build_results_index float_str sort_values t =
     (case prepare float_str (csv_rows t) of
        Inl e \<Rightarrow> Inl e
      | Inr df \<Rightarrow>
          index_groups sort_values t (groupby (\<lambda>r. (PosteNorm r, SectionCode r)) df) Map.empty)"

text \<open>The rows of the prepared frame that share the key (poste, section), in source order.\<close>

definition group_of :: "(rat \<Rightarrow> string) \<Rightarrow> csv_table \<Rightarrow> string \<Rightarrow> string \<Rightarrow> df_row list" where
  "group_of float_str t poste sec_code =
     (case prepare float_str (csv_rows t) of
        Inl e \<Rightarrow> []
      | Inr df \<Rightarrow> filter (\<lambda>r. (PosteNorm r, SectionCode r) = (poste, sec_code)) df)"


text \<open>A stable sort meets the documented contract of \<^verbatim>\<open>sort_values\<close>.\<close>

definition sort_values_stable :: "df_row list \<Rightarrow> df_row list" where
  "sort_values_stable xs = stable_sort_desc VotesNum xs"

section \<open>generate\_map.py\<close>

definition is_digit :: "char \<Rightarrow> bool" where
  "is_digit c = (c \<in> set ''0123456789'')"

text \<open>\<^verbatim>\<open>re.sub(r'\D+', '', s).lstrip('0')\<close> on the text \<^verbatim>\<open>str(x)\<close>.\<close>

definition norm_digits :: "string \<Rightarrow> string" where
  "norm_digits s = dropWhile (\<lambda>c. c = CHR ''0'') (filter is_digit s)"

text \<open>\<^verbatim>\<open>(s[-3:] if s else "").zfill(3)\<close> with s the digits of \<^verbatim>\<open>str(x)\<close>.\<close>

definition norm_bureau3 :: "string \<Rightarrow> string" where
  "norm_bureau3 x = (let s = filter is_digit x in zfill 3 (drop (length s - 3) s))"

text \<open>
  One row as \<^verbatim>\<open>pd.read_csv\<close> returns it under the declared column types: DistrictID a
  nullable integer, Bureau a text, Poste a float; None is a missing cell. A file whose
  DistrictID or Poste is not a number is refused by the reader itself. The Votes and
  total columns are numeric columns, None being NaN.
\<close>

record gm_row =
  gm_DistrictID :: "int option"
  gm_Bureau :: "string option"
  gm_Poste :: "rat option"
  gm_Candidat :: "string option"
  gm_Parti :: "string option"
  gm_Votes :: "rat option"
  gm_TotalValidVotes :: "rat option"
  gm_TotalRejectedVotes :: "rat option"
  gm_TotalVotes :: "rat option"

record gm_table =
  gm_has_TotalValidVotes :: bool
  gm_has_TotalRejectedVotes :: bool
  gm_has_TotalVotes :: bool
  gm_rows :: "gm_row list"

text \<open>\<^verbatim>\<open>str(x)\<close> of a DistrictID and of a Bureau cell.\<close>

definition str_district :: "int option \<Rightarrow> string" where
  "str_district v = (case v of None \<Rightarrow> ''<NA>'' | Some i \<Rightarrow> show_int i)"

definition str_bureau :: "string option \<Rightarrow> string" where
  "str_bureau v = (case v of None \<Rightarrow> ''nan'' | Some s \<Rightarrow> s)"

definition DistrictID_norm :: "gm_row \<Rightarrow> string" where
  "DistrictID_norm r = norm_digits (str_district (gm_DistrictID r))"

definition Bureau_norm :: "gm_row \<Rightarrow> string" where
  "Bureau_norm r = norm_bureau3 (str_bureau (gm_Bureau r))"

text \<open>
  \<^verbatim>\<open>if only_poste: df = df[df["Poste"].isin(only_poste)]\<close>; None and the empty list
  both leave the frame as it is.
\<close>

definition filter_only_poste :: "rat list \<Rightarrow> gm_row list \<Rightarrow> gm_row list" where
  "filter_only_poste only_poste df =
     (if only_poste = [] then df
      else filter (\<lambda>r. case gm_Poste r of None \<Rightarrow> False | Some p \<Rightarrow> p \<in> set only_poste) df)"

record result_row =
  row_nom :: string
  row_parti :: string
  row_votes :: int
  row_pct :: float64

record poste_info =
  info_total_valid :: int
  info_rejected :: int
  info_total :: int
  info_rows :: "result_row list"

text \<open>
  The body of the loop over the rows of a group (lines 113 to 121):
  \<^verbatim>\<open>(100.0 * votes / total_valid) if total_valid > 0 else 0.0\<close>, then \<^verbatim>\<open>round(pct, 2)\<close>.
\<close>

definition result_row_of :: "int \<Rightarrow> gm_row \<Rightarrow> py_error + result_row" where
  "result_row_of total_valid_v r =
     bind_err (py_int_nan (gm_Votes r)) (\<lambda>v.
       let p = (if 0 < total_valid_v
                then fdiv_pos (fmul_pos (float_of_int v) 100) (nearest_double (of_int total_valid_v))
                else Finite 0)
       in Inr \<lparr> row_nom = (case gm_Candidat r of None \<Rightarrow> [] | Some s \<Rightarrow> s),
                row_parti = (case gm_Parti r of None \<Rightarrow> [] | Some s \<Rightarrow> s),
                row_votes = v,
                row_pct = py_round2 p \<rparr>)"

text \<open>\<^verbatim>\<open>g["Votes"].sum()\<close>: the values that are not NaN, handed to the sum.\<close>

definition votes_sum :: "(rat list \<Rightarrow> rat) \<Rightarrow> gm_row list \<Rightarrow> rat" where
  "votes_sum series_sum g = series_sum (List.map_filter gm_Votes g)"

text \<open>The body of the loop over the groups (lines 108 to 133), the key apart.\<close>

definition group_info :: "(rat list \<Rightarrow> rat) \<Rightarrow> gm_table \<Rightarrow> gm_row list \<Rightarrow> py_error + poste_info" where
  "group_info series_sum t g =
     bind_err (if gm_has_TotalValidVotes t
               then bind_err (iloc0 g) (\<lambda>r. py_int_nan (gm_TotalValidVotes r))
               else Inr (py_int (votes_sum series_sum g))) (\<lambda>total_valid_v.
     bind_err (if gm_has_TotalRejectedVotes t
               then bind_err (iloc0 g) (\<lambda>r. py_int_nan (gm_TotalRejectedVotes r))
               else Inr 0) (\<lambda>rejected_v.
     bind_err (if gm_has_TotalVotes t
               then bind_err (iloc0 g) (\<lambda>r. py_int_nan (gm_TotalVotes r))
               else Inr (total_valid_v + rejected_v)) (\<lambda>total_v.
     bind_err (traverse (result_row_of total_valid_v) g) (\<lambda>rows.
       Inr \<lparr> info_total_valid = total_valid_v,
             info_rejected = rejected_v,
             info_total = total_v,
             info_rows = stable_sort_desc row_votes rows \<rparr>))))"

text \<open>
  \<^verbatim>\<open>pkey = str(int(p)) if float(p).is_integer() else str(p)\<close>. NaN is not integral and
  prints as nan.
\<close>

definition pkey_of :: "(rat \<Rightarrow> string) \<Rightarrow> rat option \<Rightarrow> string" where
  "pkey_of float_str p =
     (case p of
        None \<Rightarrow> ''nan''
      | Some q \<Rightarrow> if of_int \<lfloor>q\<rfloor> = q then show_int (py_int q) else float_str q)"

type_synonym gm_index = "(string \<times> string) \<rightharpoonup> (string \<rightharpoonup> poste_info)"

fun gm_index_groups ::
  "(rat \<Rightarrow> string) \<Rightarrow> (rat list \<Rightarrow> rat) \<Rightarrow> gm_table
     \<Rightarrow> ((string \<times> string \<times> rat option) \<times> gm_row list) list
     \<Rightarrow> gm_index \<Rightarrow> py_error + gm_index" where
  "gm_index_groups float_str series_sum t [] results = Inr results"
| "gm_index_groups float_str series_sum t (((d, b, p), g) # gs) results =
     (case group_info series_sum t g of
        Inl e \<Rightarrow> Inl e
      | Inr info \<Rightarrow>
          gm_index_groups float_str series_sum t gs
            (setdefault_put results (d, b) (pkey_of float_str p) info))"

definition generate_map_build_results_index ::
  "(rat \<Rightarrow> string) \<Rightarrow> (rat list \<Rightarrow> rat) \<Rightarrow> gm_table \<Rightarrow> rat list \<Rightarrow> py_error + gm_index" where
  "generate_map_build_results_index float_str series_sum t only_poste =
     gm_index_groups float_str series_sum t
       (groupby (\<lambda>r. (DistrictID_norm r, Bureau_norm r, gm_Poste r))
          (filter_only_poste only_poste (gm_rows t)))
       Map.empty"

text \<open>The rows of the table that share the grouping key (district, bureau, poste).\<close>

definition gm_group_of :: "gm_table \<Rightarrow> rat list \<Rightarrow> string \<times> string \<times> rat option \<Rightarrow> gm_row list" where
  "gm_group_of t only_poste k =
     filter (\<lambda>r. (DistrictID_norm r, Bureau_norm r, gm_Poste r) = k)
       (filter_only_poste only_poste (gm_rows t))"

subsection \<open>The winner, as the page computes it\<close>

record winner_info =
  win_parti :: string
  win_nom :: string
  win_votes :: int
  win_total_valid :: int

text \<open>
  \<^verbatim>\<open>getWinnerInfo(postes, posteKeyStr)\<close>: the entry under the key, else under
  \<^verbatim>\<open>String(parseFloat(posteKeyStr))\<close>, then the top of a copy of the rows sorted by
  votes, descending. \<^verbatim>\<open>String(parseFloat(s))\<close> and \<^verbatim>\<open>toUpperCase()\<close> are JavaScript's and
  are parameters.
\<close>

definition getWinnerInfo ::
  "(string \<Rightarrow> string) \<Rightarrow> (string \<Rightarrow> string) \<Rightarrow> (string \<rightharpoonup> poste_info) option \<Rightarrow> string
     \<Rightarrow> winner_info option" where
  "getWinnerInfo to_upper_case alt_key postes posteKeyStr =
     (case postes of
        None \<Rightarrow> None
      | Some ps \<Rightarrow>
          (case (case ps posteKeyStr of None \<Rightarrow> ps (alt_key posteKeyStr) | Some i \<Rightarrow> Some i) of
             None \<Rightarrow> None
           | Some info \<Rightarrow>
               (case stable_sort_desc row_votes (info_rows info) of
                  [] \<Rightarrow> None
                | top_row # _ \<Rightarrow>
                    Some \<lparr> win_parti = to_upper_case (js_trim (row_parti top_row)),
                           win_nom = row_nom top_row,
                           win_votes = row_votes top_row,
                           win_total_valid = info_total_valid info \<rparr>)))"

text \<open>The key under which \<^verbatim>\<open>getWinnerInfo\<close> finds its entry.\<close>

definition key_found :: "(string \<Rightarrow> string) \<Rightarrow> (string \<rightharpoonup> poste_info) \<Rightarrow> string \<Rightarrow> string" where
  "key_found alt_key ps posteKeyStr =
     (case ps posteKeyStr of None \<Rightarrow> alt_key posteKeyStr | Some i \<Rightarrow> posteKeyStr)"

section \<open>v1-1/gen\_mairie.py\<close>

record mairie_row =
  m_ElectoralDistrictID :: key_cell
  m_Poste :: key_cell
  m_Candidat :: "string option"
  m_Parti :: "string option"
  m_Votes :: cell

text \<open>A row of the frame of \<^verbatim>\<open>load_results\<close> after lines 50 to 56.\<close>

record mairie_df_row =
  m_District :: string
  m_PosteNorm :: string
  m_CandidatTxt :: "string option"
  m_PartiTxt :: "string option"
  m_VotesNum :: rat

definition mairie_prepare :: "(rat \<Rightarrow> string) \<Rightarrow> mairie_row \<Rightarrow> mairie_df_row" where
  "mairie_prepare float_str r =
     \<lparr> m_District = astype_str float_str (m_ElectoralDistrictID r),
       m_PosteNorm = poste_key float_str (m_Poste r),
       m_CandidatTxt = m_Candidat r,
       m_PartiTxt = m_Parti r,
       m_VotesNum = fillna 0 (to_numeric (m_Votes r)) \<rparr>"

text \<open>\<^verbatim>\<open>GroupBy.first()\<close> takes, column by column, the first value that is not missing.\<close>

definition first_notna :: "'a option list \<Rightarrow> 'a option" where
  "first_notna vs = (case List.map_filter (\<lambda>v. v) vs of [] \<Rightarrow> None | v # _ \<Rightarrow> Some v)"

record mairie_winner =
  w_Candidat :: "string option"
  w_Parti :: "string option"
  w_Votes :: "rat option"

definition first_of_group :: "mairie_df_row list \<Rightarrow> mairie_winner" where
  "first_of_group g =
     \<lparr> w_Candidat = first_notna (map m_CandidatTxt g),
       w_Parti = first_notna (map m_PartiTxt g),
       w_Votes = first_notna (map (\<lambda>r. Some (m_VotesNum r)) g) \<rparr>"

text \<open>
  \<^verbatim>\<open>load_results\<close>: the winners frame, one line per (district, poste), followed by
  \<^verbatim>\<open>build_winner_index\<close>, which turns it into a dictionary.
\<close>

definition load_results ::
  "(rat \<Rightarrow> string) \<Rightarrow> (mairie_df_row list \<Rightarrow> mairie_df_row list) \<Rightarrow> mairie_row list
     \<Rightarrow> ((string \<times> string) \<times> mairie_winner) list" where
  "load_results float_str sort_values rs =
     map (\<lambda>(k, g). (k, first_of_group g))
       (groupby (\<lambda>r. (m_District r, m_PosteNorm r))
          (sort_values (map (mairie_prepare float_str) rs)))"

definition build_winner_index ::
  "((string \<times> string) \<times> mairie_winner) list \<Rightarrow> (string \<times> string) \<rightharpoonup> mairie_winner" where
  "build_winner_index winners = map_of winners"

text \<open>\<^verbatim>\<open>int(res.get("Votes", 0))\<close> in \<^verbatim>\<open>inject_results_in_geojson\<close>.\<close>

definition injected_winner_votes :: "mairie_winner \<Rightarrow> py_error + int" where
  "injected_winner_votes res = py_int_nan (w_Votes res)"

definition mairie_group_of ::
  "(rat \<Rightarrow> string) \<Rightarrow> mairie_row list \<Rightarrow> string \<times> string \<Rightarrow> mairie_df_row list" where
  "mairie_group_of float_str rs k =
     filter (\<lambda>r. (m_District r, m_PosteNorm r) = k) (map (mairie_prepare float_str) rs)"

definition mairie_sort_stable :: "mairie_df_row list \<Rightarrow> mairie_df_row list" where
  "mairie_sort_stable xs = stable_sort_desc m_VotesNum xs"

section \<open>Reading the results, and the inputs used as examples\<close>

text \<open>The entry of the index under a pair of keys (None also when the run raised).\<close>

definition genmap3_entry ::
  "(rat \<Rightarrow> string) \<Rightarrow> (df_row list \<Rightarrow> df_row list) \<Rightarrow> csv_table \<Rightarrow> string \<Rightarrow> string
     \<Rightarrow> section_info option" where
  "genmap3_entry float_str sort_values t poste sec_code =
     (case genmap3_build_results_index float_str sort_values t of
        Inl e \<Rightarrow> None
      | Inr idx \<Rightarrow> lookup2 idx poste sec_code)"

definition generate_map_entry ::
  "(rat \<Rightarrow> string) \<Rightarrow> (rat list \<Rightarrow> rat) \<Rightarrow> gm_table \<Rightarrow> rat list \<Rightarrow> string \<times> string \<Rightarrow> string
     \<Rightarrow> poste_info option" where
  "generate_map_entry float_str series_sum t only_poste key pkey =
     (case generate_map_build_results_index float_str series_sum t only_poste of
        Inl e \<Rightarrow> None
      | Inr results \<Rightarrow> lookup2 results key pkey)"

text \<open>
  The examples leave the parameters that no cell of theirs reaches at a fixed value: no
  example holds a float that is printed, and the sums are sums of vote counts.
\<close>

definition no_float_str :: "rat \<Rightarrow> string" where
  "no_float_str q = []"

text \<open>A results file for genmap3.py: one section, one office, the candidate votes given.\<close>

definition csv_line :: "string \<Rightarrow> cell \<Rightarrow> cell \<Rightarrow> cell \<Rightarrow> cell \<Rightarrow> csv_row" where
  "csv_line name v tv tr tt =
     \<lparr> Poste = IntCell 0, ElectoralDistrictID = Num 11, Bureau = IntCell 37,
       Candidat = Some name, Parti = Some (name @ ''-party''), Votes = v,
       TotalValidVotes = tv, TotalRejectedVotes = tr, TotalVotes = tt \<rparr>"

definition csv_file :: "bool \<Rightarrow> csv_row list \<Rightarrow> csv_table" where
  "csv_file totals rs =
     \<lparr> has_TotalValidVotes = totals, has_TotalRejectedVotes = totals, has_TotalVotes = totals,
       csv_rows = rs \<rparr>"

definition example_csv :: csv_table where
  "example_csv =
     csv_file True [csv_line ''A'' (Num 20) (Num 50) (Num 2) (Num 52),
                    csv_line ''B'' (Num 30) (Num 50) (Num 2) (Num 52)]"


definition thirds_csv :: csv_table where
  "thirds_csv =
     csv_file True [csv_line ''A'' (Num 20) (Num 60) (Num 0) (Num 60),
                    csv_line ''B'' (Num 40) (Num 60) (Num 0) (Num 60)]"

text \<open>A results file for generate\_map.py, with and without the total columns.\<close>

definition gm_line ::
  "rat \<Rightarrow> string \<Rightarrow> rat option \<Rightarrow> rat option \<Rightarrow> rat option \<Rightarrow> rat option \<Rightarrow> gm_row" where
  "gm_line office name v tv tr tt =
     \<lparr> gm_DistrictID = Some 11, gm_Bureau = Some ''37'', gm_Poste = Some office,
       gm_Candidat = Some name, gm_Parti = Some (name @ ''-party''), gm_Votes = v,
       gm_TotalValidVotes = tv, gm_TotalRejectedVotes = tr, gm_TotalVotes = tt \<rparr>"

definition gm_file :: "bool \<Rightarrow> gm_row list \<Rightarrow> gm_table" where
  "gm_file totals rs =
     \<lparr> gm_has_TotalValidVotes = totals, gm_has_TotalRejectedVotes = totals,
       gm_has_TotalVotes = totals, gm_rows = rs \<rparr>"

definition example_gm :: gm_table where
  "example_gm =
     gm_file False [gm_line 0 ''A'' (Some 20) None None None,
                    gm_line 0 ''B'' (Some 30) None None None]"

definition tied_gm :: gm_table where
  "tied_gm =
     gm_file True [gm_line 0 ''C'' (Some 10) (Some 70) (Some 0) (Some 70),
                   gm_line 0 ''A'' (Some 30) (Some 70) (Some 0) (Some 70),
                   gm_line 0 ''B'' (Some 30) (Some 70) (Some 0) (Some 70)]"

definition zero_valid_gm :: gm_table where
  "zero_valid_gm = gm_file True [gm_line 0 ''A'' (Some 10) (Some 0) (Some 0) (Some 50)]"

text \<open>Two offices in one section, and three candidates without the total columns.\<close>

definition two_offices_gm :: gm_table where
  "two_offices_gm =
     gm_file False [gm_line 0 ''A'' (Some 20) None None None,
                    gm_line 0 ''B'' (Some 30) None None None,
                    gm_line 1 ''C'' (Some 5) None None None,
                    gm_line 1 ''D'' (Some 7) None None None]"

definition three_gm :: gm_table where
  "three_gm =
     gm_file False [gm_line 0 ''A'' (Some 20) None None None,
                    gm_line 0 ''B'' (Some 30) None None None,
                    gm_line 0 ''C'' (Some 7) None None None]"

definition rounding_gm :: gm_table where
  "rounding_gm = gm_file True [gm_line 0 ''A'' (Some 107) (Some 4000) (Some 0) (Some 4000)]"

text \<open>Results files for gen\_mairie.py; in the second the first row has no candidate.\<close>

definition mairie_line :: "string option \<Rightarrow> string \<Rightarrow> cell \<Rightarrow> mairie_row" where
  "mairie_line name party v =
     \<lparr> m_ElectoralDistrictID = IntCell 11, m_Poste = TextCell ''0,00'', m_Candidat = name,
       m_Parti = Some party, m_Votes = v \<rparr>"

definition example_mairie :: "mairie_row list" where
  "example_mairie = [mairie_line (Some ''A'') ''X'' (Num 20), mairie_line (Some ''B'') ''Y'' (Num 30)]"



section \<open>Properties of the helpers\<close>

lemma lookup2_setdefault_put:
  "lookup2 (setdefault_put idx a b v) p s = (if p = a \<and> s = b then Some v else lookup2 idx p s)"
  by (auto simp: lookup2_def setdefault_put_def split: option.splits)

lemma lookup2_empty: "lookup2 Map.empty p s = None"
  by (simp add: lookup2_def)

lemma distinct_groupby: "distinct (map fst (groupby key xs))"
  by (simp add: groupby_def comp_def)

lemma map_of_groupby:
  "map_of (groupby key xs) k = (if k \<in> key ` set xs then Some (filter (\<lambda>x. key x = k) xs) else None)"
  by (auto simp: groupby_def map_of_map_restrict restrict_map_def)

lemma set_groupby:
  "(k, g) \<in> set (groupby key xs) \<longleftrightarrow> k \<in> key ` set xs \<and> g = filter (\<lambda>x. key x = k) xs"
  by (auto simp: groupby_def)

lemma py_int_mono: "a \<le> b \<Longrightarrow> py_int a \<le> py_int b"
proof -
  assume ab: "a \<le> b"
  consider "0 \<le> a" | "a < 0" "b < 0" | "a < 0" "0 \<le> b" by linarith
  then show ?thesis
  proof cases
    case 1
    with ab have "0 \<le> b" by simp
    with 1 ab show ?thesis by (simp add: py_int_def floor_mono)
  next
    case 2
    with ab show ?thesis by (simp add: py_int_def ceiling_mono)
  next
    case 3
    then have "\<lceil>a\<rceil> \<le> 0" "0 \<le> \<lfloor>b\<rfloor>" by (simp_all add: ceiling_le_zero)
    then have "\<lceil>a\<rceil> \<le> \<lfloor>b\<rfloor>" by (rule order_trans)
    with 3 show ?thesis by (simp add: py_int_def)
  qed
qed


lemma py_int_of_int: "py_int (of_int i) = i"
  by (simp add: py_int_def)

lemma head_of_descending_is_max:
  assumes "sorted_wrt (\<lambda>a b. key b \<le> key a) (w # rest)" "mset (w # rest) = mset g"
  shows "w \<in> set g" "py_int (key w) = Max ((\<lambda>r. py_int (key r)) ` set g)"
proof -
  from assms(2) have s: "set g = set (w # rest)" by (metis mset_eq_setD)
  then show "w \<in> set g" by simp
  have "\<forall>r\<in>set g. key r \<le> key w" using assms(1) s by auto
  then have "\<forall>r\<in>set g. py_int (key r) \<le> py_int (key w)" by (simp add: py_int_mono)
  then show "py_int (key w) = Max ((\<lambda>r. py_int (key r)) ` set g)"
    using \<open>w \<in> set g\<close> by (intro Max_eqI[symmetric]) auto
qed

lemma head_desc_Max:
  fixes key :: "'a \<Rightarrow> 'k::linorder"
  assumes "sorted_wrt (\<lambda>a b. key b \<le> key a) (w # rest)"
  shows "key w = Max (key ` set (w # rest))"
proof -
  have "\<forall>r\<in>set (w # rest). key r \<le> key w" using assms by auto
  then show ?thesis by (intro Max_eqI[symmetric]) auto
qed

lemma traverse_Inr:
  "traverse f xs = Inr ys \<Longrightarrow> list_all2 (\<lambda>x y. f x = Inr y) xs ys"
  by (induction xs arbitrary: ys) (auto split: sum.splits)

lemma traverse_total:
  "(\<And>x. x \<in> set xs \<Longrightarrow> \<exists>y. f x = Inr y) \<Longrightarrow> \<exists>ys. traverse f xs = Inr ys"
proof (induction xs)
  case Nil
  then show ?case by simp
next
  case (Cons x xs)
  from Cons.prems[of x] obtain y where y: "f x = Inr y" by auto
  from Cons.IH Cons.prems obtain ys where "traverse f xs = Inr ys" by auto
  with y show ?case by simp
qed

lemma first_notna_Some_Cons [simp]: "first_notna (Some v # vs) = Some v"
  by (simp add: first_notna_def List.map_filter_simps)

lemma first_notna_None_Cons [simp]: "first_notna (None # vs) = first_notna vs"
  by (simp add: first_notna_def List.map_filter_simps)

lemma first_notna_Nil [simp]: "first_notna [] = None"
  by (simp add: first_notna_def List.map_filter_simps)


section \<open>Sorting: the contract, stability and the first maximal row\<close>

lemma sorted_stable_sort_desc:
  fixes key :: "'a \<Rightarrow> 'k::linordered_ab_group_add"
  shows "sorted_wrt (\<lambda>a b. key b \<le> key a) (stable_sort_desc key xs)"
proof -
  have "sorted (map (\<lambda>x. - key x) (sort_key (\<lambda>x. - key x) xs))" by (rule sorted_sort_key)
  then show ?thesis by (simp add: stable_sort_desc_def sorted_map)
qed

lemma mset_stable_sort_desc: "mset (stable_sort_desc key xs) = mset xs"
  by (simp add: stable_sort_desc_def)

lemma set_stable_sort_desc: "set (stable_sort_desc key xs) = set xs"
  by (simp add: stable_sort_desc_def)

lemma stable_sort_desc_stable:
  fixes key :: "'a \<Rightarrow> 'k::linordered_ab_group_add"
  shows "filter (\<lambda>x. key x = v) (stable_sort_desc key xs) = filter (\<lambda>x. key x = v) xs"
  using sort_key_stable[of "\<lambda>x. - key x" "- v" xs] by (simp add: stable_sort_desc_def)


lemma sorts_descending_stable:
  fixes key :: "'a \<Rightarrow> rat"
  shows "sorts_descending key (stable_sort_desc key)"
  by (simp add: sorts_descending_def mset_stable_sort_desc sorted_stable_sort_desc)

lemma sorts_descending_nonempty:
  assumes "sorts_descending key srt" "g \<noteq> []"
  shows "srt g \<noteq> []"
proof
  assume "srt g = []"
  moreover from assms(1) have "mset (srt g) = mset g" by (simp add: sorts_descending_def)
  ultimately show False using assms(2) by simp
qed





section \<open>Numbers\<close>

lemma floor_rat_numeral_div: "\<lfloor>numeral a / numeral b :: rat\<rfloor> = numeral a div numeral b"
  using floor_divide_of_int_eq[of "numeral a" "numeral b", where 'a = rat] by simp

lemma floor_rat_neg_numeral_div:
  "\<lfloor>- (numeral a / numeral b) :: rat\<rfloor> = - numeral a div numeral b"
  using floor_divide_of_int_eq[of "- numeral a" "numeral b", where 'a = rat] by simp

lemma ceiling_rat_numeral_div:
  "\<lceil>numeral a / numeral b :: rat\<rceil> = - (- numeral a div numeral b)"
  using floor_rat_neg_numeral_div[of a b] by (simp add: ceiling_def)

lemma ceiling_rat_neg_numeral_div:
  "\<lceil>- (numeral a / numeral b) :: rat\<rceil> = - (numeral a div numeral b)"
  using floor_rat_numeral_div[of a b] by (simp add: ceiling_def)

lemma round_to_double_zero: "round_to_double 0 = Finite 0"
  by (simp add: round_to_double_def nearest_double_def)

lemma py_round2_zero: "py_round2 (Finite 0) = Finite 0"
  by (simp add: py_round2_def round_half_even_def round_to_double_zero)

lemmas numbers_eval = py_int_def py_int_nan_def fillna_def astype_int64_def
  floor_rat_numeral_div floor_rat_neg_numeral_div ceiling_rat_numeral_div
  ceiling_rat_neg_numeral_div

lemmas float_eval = pow2_def bit_length.simps ilog2_def round_half_even_def nearest_double_def
  round_to_double_def float_of_int_def fmul_pos_def fdiv_pos_def py_round2_def percent_def
  Let_def floor_rat_numeral_div floor_rat_neg_numeral_div ceiling_rat_numeral_div
  ceiling_rat_neg_numeral_div

section \<open>genmap3.py: what an entry of the index is\<close>

lemma index_groups_lookup:
  "index_groups srt t gs idx0 = Inr idx \<Longrightarrow> distinct (map fst gs) \<Longrightarrow>
   lookup2 idx p s =
     (case map_of gs (p, s) of
        None \<Rightarrow> lookup2 idx0 p s
      | Some grp \<Rightarrow> (case aggregate_group srt t grp of Inl e \<Rightarrow> None | Inr a \<Rightarrow> Some a))"
proof (induction gs arbitrary: idx0)
  case Nil
  then show ?case by simp
next
  case (Cons g gs)
  obtain p' s' grp where g: "g = ((p', s'), grp)" by (metis surj_pair)
  from Cons.prems(1) g obtain info where
    agg: "aggregate_group srt t grp = Inr info" and
    rest: "index_groups srt t gs (setdefault_put idx0 p' s' info) = Inr idx"
    by (auto split: sum.splits)
  from Cons.prems(2) g have d: "distinct (map fst gs)" and nin: "(p', s') \<notin> fst ` set gs" by auto
  have IH: "lookup2 idx p s =
     (case map_of gs (p, s) of
        None \<Rightarrow> lookup2 (setdefault_put idx0 p' s' info) p s
      | Some grp \<Rightarrow> (case aggregate_group srt t grp of Inl e \<Rightarrow> None | Inr a \<Rightarrow> Some a))"
    using Cons.IH[OF rest d] .
  show ?case
  proof (cases "(p, s) = (p', s')")
    case True
    then have "map_of gs (p, s) = None" using nin by (simp add: map_of_eq_None_iff)
    with IH True g agg show ?thesis by (simp add: lookup2_setdefault_put)
  next
    case False
    with IH g show ?thesis by (auto simp: lookup2_setdefault_put split: option.splits)
  qed
qed

lemma index_groups_total:
  "\<forall>x\<in>set gs. \<exists>a. aggregate_group srt t (snd x) = Inr a \<Longrightarrow>
   \<exists>idx. index_groups srt t gs idx0 = Inr idx"
proof (induction gs arbitrary: idx0)
  case Nil
  then show ?case by simp
next
  case (Cons x gs)
  obtain p s g where x: "x = ((p, s), g)" by (metis surj_pair)
  from Cons.prems x obtain a where a: "aggregate_group srt t g = Inr a" by auto
  from Cons.prems have "\<forall>x\<in>set gs. \<exists>a. aggregate_group srt t (snd x) = Inr a" by simp
  from Cons.IH[OF this, of "setdefault_put idx0 p s a"]
  obtain idx where "index_groups srt t gs (setdefault_put idx0 p s a) = Inr idx" by blast
  with a x show ?case by simp
qed

lemma index_groups_all_Inr:
  "index_groups srt t gs idx0 = Inr idx \<Longrightarrow> x \<in> set gs \<Longrightarrow>
   \<exists>a. aggregate_group srt t (snd x) = Inr a"
proof (induction gs arbitrary: idx0)
  case Nil
  then show ?case by simp
next
  case (Cons y gs)
  obtain p s g where y: "y = ((p, s), g)" by (metis surj_pair)
  from Cons.prems(1) y obtain i where i: "aggregate_group srt t g = Inr i"
    "index_groups srt t gs (setdefault_put idx0 p s i) = Inr idx"
    by (auto split: sum.splits)
  from Cons.prems(2) have "x = y \<or> x \<in> set gs" by simp
  then show ?case
  proof
    assume "x = y" with y i(1) show ?thesis by simp
  next
    assume "x \<in> set gs" with Cons.IH[OF i(2)] show ?thesis by blast
  qed
qed

lemma aggregate_group_total:
  assumes "sorts_descending VotesNum srt" "g \<noteq> []"
  shows "\<exists>a. aggregate_group srt t g = Inr a"
proof -
  from sorts_descending_nonempty[OF assms] obtain w rest where "srt g = w # rest"
    by (cases "srt g") auto
  moreover from assms(2) obtain x xs where "g = x # xs" by (cases g) auto
  ultimately show ?thesis
    by (simp add: aggregate_group_def bind_err_def iloc0_def Let_def)
qed

lemma prepare_total:
  assumes "\<forall>r\<in>set rs. to_numeric (ElectoralDistrictID r) \<noteq> None"
  shows "\<exists>df. prepare fs rs = Inr df"
  unfolding prepare_def
proof (rule traverse_total)
  fix r assume "r \<in> set rs"
  with assms obtain d where "to_numeric (ElectoralDistrictID r) = Some d" by auto
  then show "\<exists>y. prepare_row fs r = Inr y" by (simp add: prepare_row_def)
qed

lemma genmap3_total:
  assumes "sorts_descending VotesNum srt"
    "\<forall>r\<in>set (csv_rows t). to_numeric (ElectoralDistrictID r) \<noteq> None"
  shows "\<exists>idx. genmap3_build_results_index fs srt t = Inr idx"
proof -
  from prepare_total[OF assms(2)] obtain df where df: "prepare fs (csv_rows t) = Inr df" by blast
  have "\<exists>idx. index_groups srt t (groupby (\<lambda>r. (PosteNorm r, SectionCode r)) df) Map.empty = Inr idx"
  proof (rule index_groups_total, rule ballI)
    fix x assume "x \<in> set (groupby (\<lambda>r. (PosteNorm r, SectionCode r)) df)"
    then have "(fst x, snd x) \<in> set (groupby (\<lambda>r. (PosteNorm r, SectionCode r)) df)" by simp
    then have "snd x \<noteq> []" unfolding set_groupby by (auto simp: filter_empty_conv)
    with assms(1) show "\<exists>a. aggregate_group srt t (snd x) = Inr a" by (rule aggregate_group_total)
  qed
  with df show ?thesis by (simp add: genmap3_build_results_index_def)
qed

lemma genmap3_lookup_eq:
  assumes "genmap3_build_results_index fs srt t = Inr idx"
  shows "lookup2 idx p s =
     (if group_of fs t p s = [] then None
      else (case aggregate_group srt t (group_of fs t p s) of Inl e \<Rightarrow> None | Inr a \<Rightarrow> Some a))"
proof -
  let ?key = "\<lambda>r. (PosteNorm r, SectionCode r)"
  from assms obtain df where df: "prepare fs (csv_rows t) = Inr df"
    and ig: "index_groups srt t (groupby ?key df) Map.empty = Inr idx"
    by (auto simp: genmap3_build_results_index_def split: sum.splits)
  have g: "group_of fs t p s = filter (\<lambda>r. ?key r = (p, s)) df"
    using df by (simp add: group_of_def)
  have m: "map_of (groupby ?key df) (p, s) =
      (if group_of fs t p s = [] then None else Some (group_of fs t p s))"
    unfolding map_of_groupby g by (auto simp: filter_empty_conv)
  show ?thesis
    unfolding index_groups_lookup[OF ig distinct_groupby, of p s] m
    by (simp add: lookup2_empty)
qed

lemma genmap3_lookup:
  assumes "genmap3_build_results_index fs srt t = Inr idx" "lookup2 idx p s = Some a"
  shows "group_of fs t p s \<noteq> []" "aggregate_group srt t (group_of fs t p s) = Inr a"
  using assms(2) unfolding genmap3_lookup_eq[OF assms(1)]
  by (auto split: if_splits sum.splits)

lemma genmap3_covers:
  assumes "genmap3_build_results_index fs srt t = Inr idx" "group_of fs t p s \<noteq> []"
  shows "\<exists>a. lookup2 idx p s = Some a"
proof -
  let ?key = "\<lambda>r. (PosteNorm r, SectionCode r)"
  from assms(1) obtain df where df: "prepare fs (csv_rows t) = Inr df"
    and ig: "index_groups srt t (groupby ?key df) Map.empty = Inr idx"
    by (auto simp: genmap3_build_results_index_def split: sum.splits)
  have g: "group_of fs t p s = filter (\<lambda>r. ?key r = (p, s)) df"
    using df by (simp add: group_of_def)
  with assms(2) have "((p, s), group_of fs t p s) \<in> set (groupby ?key df)"
    unfolding set_groupby by (auto simp: filter_empty_conv)
  then have "((p, s), group_of fs t p s) \<in> set (groupby ?key df)" .
  from index_groups_all_Inr[OF ig this]
  obtain a where "aggregate_group srt t (group_of fs t p s) = Inr a" by auto
  with assms(2) show ?thesis unfolding genmap3_lookup_eq[OF assms(1)] by simp
qed

lemma aggregate_group_Inr:
  assumes "aggregate_group srt t g = Inr a"
  obtains w rest where "srt g = w # rest"
    "winner_candidate a = normalize_str (CandidatTxt w)"
    "winner_party a = normalize_str (PartiTxt w)"
    "winner_votes a = py_int (VotesNum w)"
    "total_valid a = map_option py_int (group_total (has_TotalValidVotes t) TotalValidNum g)"
    "total_rejected a = map_option py_int (group_total (has_TotalRejectedVotes t) TotalRejectedNum g)"
    "total_votes a = map_option py_int (group_total (has_TotalVotes t) TotalVotesNum g)"
    "breakdown a =
       map (breakdown_of (total_for_pct (group_total (has_TotalValidVotes t) TotalValidNum g)
                                        (group_total (has_TotalVotes t) TotalVotesNum g))) g"
  using assms
  by (auto simp: aggregate_group_def bind_err_def iloc0_def Let_def split: list.splits)

lemma genmap3_entry_Some:
  assumes "genmap3_entry fs srt t p s = Some a"
  shows "group_of fs t p s \<noteq> []" "aggregate_group srt t (group_of fs t p s) = Inr a"
    "\<exists>idx. genmap3_build_results_index fs srt t = Inr idx \<and> lookup2 idx p s = Some a"
proof -
  from assms obtain idx where i: "genmap3_build_results_index fs srt t = Inr idx" "lookup2 idx p s = Some a"
    by (auto simp: genmap3_entry_def split: sum.splits)
  then show "\<exists>idx. genmap3_build_results_index fs srt t = Inr idx \<and> lookup2 idx p s = Some a" by blast
  from genmap3_lookup[OF i] show "group_of fs t p s \<noteq> []" "aggregate_group srt t (group_of fs t p s) = Inr a"
    by simp_all
qed

lemma genmap3_entry_exists:
  assumes "sorts_descending VotesNum srt"
    "\<forall>r\<in>set (csv_rows t). to_numeric (ElectoralDistrictID r) \<noteq> None"
    "group_of fs t p s \<noteq> []"
  shows "\<exists>a. genmap3_entry fs srt t p s = Some a"
proof -
  from genmap3_total[OF assms(1,2)] obtain idx where
    i: "genmap3_build_results_index fs srt t = Inr idx" by blast
  from genmap3_covers[OF i assms(3)] i show ?thesis by (simp add: genmap3_entry_def)
qed

lemma genmap3_winner_votes_max:
  assumes "sorts_descending VotesNum srt" "genmap3_entry fs srt t p s = Some a"
  shows "group_of fs t p s \<noteq> [] \<and>
     winner_votes a = Max ((\<lambda>r. py_int (VotesNum r)) ` set (group_of fs t p s))"
proof -
  note l = genmap3_entry_Some(1,2)[OF assms(2)]
  from l(2) obtain w rest where w: "srt (group_of fs t p s) = w # rest" "winner_votes a = py_int (VotesNum w)"
    by (rule aggregate_group_Inr)
  from assms(1) have "mset (srt (group_of fs t p s)) = mset (group_of fs t p s)"
    "sorted_wrt (\<lambda>a b. VotesNum b \<le> VotesNum a) (srt (group_of fs t p s))"
    by (auto simp: sorts_descending_def)
  with w(1) have "py_int (VotesNum w) = Max ((\<lambda>r. py_int (VotesNum r)) ` set (group_of fs t p s))"
    using head_of_descending_is_max(2)[of VotesNum w rest "group_of fs t p s"] by simp
  with l(1) w(2) show ?thesis by simp
qed



section \<open>genmap3.py: totals, percentages and emitted votes\<close>

lemma col_max_None_iff: "col_max vs = None \<longleftrightarrow> (\<forall>v\<in>set vs. v = None)"
proof (induction vs)
  case Nil
  then show ?case by (simp add: col_max_def List.map_filter_simps)
next
  case (Cons v vs)
  then show ?case
    by (cases v) (auto simp: col_max_def List.map_filter_simps split: list.splits)
qed

lemma group_total_None_iff:
  "group_total present col g = None \<longleftrightarrow> \<not> present \<or> (\<forall>r\<in>set g. col r = None)"
  by (auto simp: group_total_def col_max_None_iff)

lemma total_for_pct_None_iff:
  "total_for_pct tv tt = None \<longleftrightarrow> \<not> positive tv \<and> \<not> positive tt"
  by (auto simp: total_for_pct_def positive_def split: option.splits)

lemma total_for_pct_Some_pos: "total_for_pct tv tt = Some base \<Longrightarrow> 0 < base"
  by (auto simp: total_for_pct_def positive_def split: option.splits if_splits)

lemma breakdown_of_pct:
  "pct (breakdown_of (total_for_pct tv tt) r) =
     map_option (\<lambda>base. percent (py_int (VotesNum r)) base) (total_for_pct tv tt)"
  by (cases "total_for_pct tv tt") (auto simp: breakdown_of_def dest: total_for_pct_Some_pos)

lemma genmap3_entry_fields:
  assumes "genmap3_entry fs srt t p s = Some a"
  shows "total_valid a = map_option py_int (group_total (has_TotalValidVotes t) TotalValidNum (group_of fs t p s))"
    "total_rejected a = map_option py_int (group_total (has_TotalRejectedVotes t) TotalRejectedNum (group_of fs t p s))"
    "total_votes a = map_option py_int (group_total (has_TotalVotes t) TotalVotesNum (group_of fs t p s))"
    "breakdown a =
       map (breakdown_of (total_for_pct (group_total (has_TotalValidVotes t) TotalValidNum (group_of fs t p s))
                                        (group_total (has_TotalVotes t) TotalVotesNum (group_of fs t p s))))
         (group_of fs t p s)"
  using genmap3_entry_Some(2)[OF assms] by (auto elim!: aggregate_group_Inr)




section \<open>generate\_map.py: what an entry of the index is\<close>

lemma gm_index_groups_lookup:
  "gm_index_groups fs ss t gs idx0 = Inr idx \<Longrightarrow> lookup2 idx k pk = Some info \<Longrightarrow>
   lookup2 idx0 k pk = Some info \<or>
   (\<exists>d b p g. ((d, b, p), g) \<in> set gs \<and> k = (d, b) \<and> pk = pkey_of fs p \<and>
      group_info ss t g = Inr info)"
proof (induction gs arbitrary: idx0)
  case Nil
  then show ?case by simp
next
  case (Cons x gs)
  obtain d b p g where x: "x = ((d, b, p), g)" by (metis surj_pair)
  from Cons.prems(1) x obtain i where
    gi: "group_info ss t g = Inr i" and
    rest: "gm_index_groups fs ss t gs (setdefault_put idx0 (d, b) (pkey_of fs p) i) = Inr idx"
    by (auto split: sum.splits)
  from Cons.IH[OF rest Cons.prems(2)] show ?case
  proof
    assume "lookup2 (setdefault_put idx0 (d, b) (pkey_of fs p) i) k pk = Some info"
    then show ?thesis using gi x
      by (auto simp: lookup2_setdefault_put split: if_splits)
  next
    assume "\<exists>d b p g. ((d, b, p), g) \<in> set gs \<and> k = (d, b) \<and> pk = pkey_of fs p \<and>
      group_info ss t g = Inr info"
    then show ?thesis by auto
  qed
qed

lemma gm_index_groups_covers:
  "gm_index_groups fs ss t gs idx0 = Inr idx \<Longrightarrow>
   lookup2 idx0 k pk \<noteq> None \<or> (\<exists>d b p g. ((d, b, p), g) \<in> set gs \<and> k = (d, b) \<and> pk = pkey_of fs p) \<Longrightarrow>
   lookup2 idx k pk \<noteq> None"
proof (induction gs arbitrary: idx0)
  case Nil
  then show ?case by simp
next
  case (Cons x gs)
  obtain d b p g where x: "x = ((d, b, p), g)" by (metis surj_pair)
  from Cons.prems(1) x obtain i where
    rest: "gm_index_groups fs ss t gs (setdefault_put idx0 (d, b) (pkey_of fs p) i) = Inr idx"
    by (auto split: sum.splits)
  from Cons.prems(2) have "lookup2 (setdefault_put idx0 (d, b) (pkey_of fs p) i) k pk \<noteq> None \<or>
      (\<exists>d b p g. ((d, b, p), g) \<in> set gs \<and> k = (d, b) \<and> pk = pkey_of fs p)"
  proof
    assume "lookup2 idx0 k pk \<noteq> None"
    then show ?thesis by (simp add: lookup2_setdefault_put)
  next
    assume "\<exists>d b p g. ((d, b, p), g) \<in> set (x # gs) \<and> k = (d, b) \<and> pk = pkey_of fs p"
    then obtain d' b' p' g' where e: "((d', b', p'), g') \<in> set (x # gs)" "k = (d', b')" "pk = pkey_of fs p'"
      by blast
    show ?thesis
    proof (cases "((d', b', p'), g') = x")
      case True
      with x e have "k = (d, b)" "pk = pkey_of fs p" by simp_all
      then show ?thesis by (simp add: lookup2_setdefault_put)
    next
      case False
      with e have "((d', b', p'), g') \<in> set gs" by simp
      with e(2,3) show ?thesis by blast
    qed
  qed
  from Cons.IH[OF rest this] show ?case .
qed

lemma generate_map_lookup:
  assumes "generate_map_build_results_index fs ss t only_poste = Inr idx"
    "lookup2 idx (d, b) pk = Some info"
  shows "\<exists>p. pk = pkey_of fs p \<and> gm_group_of t only_poste (d, b, p) \<noteq> [] \<and>
             group_info ss t (gm_group_of t only_poste (d, b, p)) = Inr info"
proof -
  let ?df = "filter_only_poste only_poste (gm_rows t)"
  let ?key = "\<lambda>r. (DistrictID_norm r, Bureau_norm r, gm_Poste r)"
  from assms(1) have "gm_index_groups fs ss t (groupby ?key ?df) Map.empty = Inr idx"
    by (simp add: generate_map_build_results_index_def)
  from gm_index_groups_lookup[OF this assms(2)]
  obtain d' b' p g where g: "((d', b', p), g) \<in> set (groupby ?key ?df)" "(d, b) = (d', b')"
    "pk = pkey_of fs p" "group_info ss t g = Inr info"
    by (auto simp: lookup2_empty)
  from g(1) have "(d', b', p) \<in> ?key ` set ?df" "g = filter (\<lambda>x. ?key x = (d', b', p)) ?df"
    unfolding set_groupby by auto
  then have "g = gm_group_of t only_poste (d, b, p)" "g \<noteq> []"
    using g(2) by (auto simp: gm_group_of_def filter_empty_conv)
  with g(3,4) show ?thesis by auto
qed

lemma generate_map_covers:
  assumes "generate_map_build_results_index fs ss t only_poste = Inr idx"
    "gm_group_of t only_poste (d, b, p) \<noteq> []"
  shows "\<exists>info. lookup2 idx (d, b) (pkey_of fs p) = Some info"
proof -
  let ?df = "filter_only_poste only_poste (gm_rows t)"
  let ?key = "\<lambda>r. (DistrictID_norm r, Bureau_norm r, gm_Poste r)"
  from assms(1) have ig: "gm_index_groups fs ss t (groupby ?key ?df) Map.empty = Inr idx"
    by (simp add: generate_map_build_results_index_def)
  from assms(2) have "((d, b, p), gm_group_of t only_poste (d, b, p)) \<in> set (groupby ?key ?df)"
    unfolding set_groupby gm_group_of_def by (auto simp: filter_empty_conv)
  then have "lookup2 idx (d, b) (pkey_of fs p) \<noteq> None"
    by (intro gm_index_groups_covers[OF ig]) blast
  then show ?thesis by auto
qed

lemma group_info_Inr:
  assumes "group_info ss t g = Inr info"
  obtains rows where
    "traverse (result_row_of (info_total_valid info)) g = Inr rows"
    "info_rows info = stable_sort_desc row_votes rows"
    "if gm_has_TotalValidVotes t
     then bind_err (iloc0 g) (\<lambda>r. py_int_nan (gm_TotalValidVotes r)) = Inr (info_total_valid info)
     else info_total_valid info = py_int (votes_sum ss g)"
    "if gm_has_TotalRejectedVotes t
     then bind_err (iloc0 g) (\<lambda>r. py_int_nan (gm_TotalRejectedVotes r)) = Inr (info_rejected info)
     else info_rejected info = 0"
    "if gm_has_TotalVotes t
     then bind_err (iloc0 g) (\<lambda>r. py_int_nan (gm_TotalVotes r)) = Inr (info_total info)
     else info_total info = info_total_valid info + info_rejected info"
  using assms unfolding group_info_def bind_err_def
  by (auto split: sum.splits if_splits)

lemma result_row_of_Inr:
  assumes "result_row_of tv r = Inr y"
  obtains v where "gm_Votes r = Some v" "row_votes y = py_int v"
    "row_pct y =
       py_round2 (if 0 < tv
                  then fdiv_pos (fmul_pos (float_of_int (py_int v)) 100) (nearest_double (of_int tv))
                  else Finite 0)"
    "row_nom y = (case gm_Candidat r of None \<Rightarrow> [] | Some s \<Rightarrow> s)"
    "row_parti y = (case gm_Parti r of None \<Rightarrow> [] | Some s \<Rightarrow> s)"
  using assms unfolding result_row_of_def bind_err_def py_int_nan_def
  by (auto split: sum.splits option.splits simp: Let_def)

lemma generate_map_entry_Some:
  assumes "generate_map_entry fs ss t only_poste (d, b) pk = Some info"
  shows "\<exists>p. pk = pkey_of fs p \<and> gm_group_of t only_poste (d, b, p) \<noteq> [] \<and>
             group_info ss t (gm_group_of t only_poste (d, b, p)) = Inr info"
proof -
  from assms obtain idx where "generate_map_build_results_index fs ss t only_poste = Inr idx"
    "lookup2 idx (d, b) pk = Some info"
    by (auto simp: generate_map_entry_def split: sum.splits)
  then show ?thesis by (rule generate_map_lookup)
qed

lemma traverse_result_rows_votes:
  assumes "traverse (result_row_of tv) g = Inr rows"
  shows "map row_votes rows = map (\<lambda>r. py_int (fillna 0 (gm_Votes r))) g"
proof -
  from traverse_Inr[OF assms] have "list_all2 (\<lambda>r y. result_row_of tv r = Inr y) g rows" .
  then show ?thesis
  proof (induction rule: list_all2_induct)
    case Nil
    then show ?case by simp
  next
    case (Cons r g y rows)
    from Cons(1) obtain v where "gm_Votes r = Some v" "row_votes y = py_int v"
      by (rule result_row_of_Inr)
    with Cons show ?case by (simp add: fillna_def)
  qed
qed

lemma traverse_result_rows_all_votes:
  assumes "traverse (result_row_of tv) g = Inr rows" "r \<in> set g"
  shows "gm_Votes r \<noteq> None"
proof -
  from traverse_Inr[OF assms(1)] assms(2) obtain y where "result_row_of tv r = Inr y"
    by (auto simp: list_all2_conv_all_nth in_set_conv_nth)
  then show ?thesis by (auto elim!: result_row_of_Inr)
qed

lemma getWinnerInfo_Some:
  assumes "getWinnerInfo up alt postes k = Some w"
  obtains ps info top_row rest where "postes = Some ps" "ps (key_found alt ps k) = Some info"
    "stable_sort_desc row_votes (info_rows info) = top_row # rest"
    "win_votes w = row_votes top_row" "win_nom w = row_nom top_row"
    "win_parti w = up (js_trim (row_parti top_row))"
    "win_total_valid w = info_total_valid info"
  using assms unfolding getWinnerInfo_def key_found_def
  by (auto split: option.splits list.splits)

lemma getWinnerInfo_votes_max:
  assumes "generate_map_build_results_index fs ss t only_poste = Inr results"
    "getWinnerInfo up alt (results (d, b)) k = Some w"
  shows "\<exists>ps p. results (d, b) = Some ps \<and> pkey_of fs p = key_found alt ps k \<and>
     gm_group_of t only_poste (d, b, p) \<noteq> [] \<and>
     win_votes w = Max ((\<lambda>r. py_int (fillna 0 (gm_Votes r))) ` set (gm_group_of t only_poste (d, b, p)))"
proof -
  from assms(2) obtain ps info top_row rest where
    w: "results (d, b) = Some ps" "ps (key_found alt ps k) = Some info"
       "stable_sort_desc row_votes (info_rows info) = top_row # rest"
       "win_votes w = row_votes top_row"
    by (rule getWinnerInfo_Some)
  from w(1,2) have "lookup2 results (d, b) (key_found alt ps k) = Some info" by (simp add: lookup2_def)
  from generate_map_lookup[OF assms(1) this] obtain p where
    g: "key_found alt ps k = pkey_of fs p" "gm_group_of t only_poste (d, b, p) \<noteq> []"
       "group_info ss t (gm_group_of t only_poste (d, b, p)) = Inr info" by blast
  let ?g = "gm_group_of t only_poste (d, b, p)"
  from g(3) obtain rows where rows: "traverse (result_row_of (info_total_valid info)) ?g = Inr rows"
    "info_rows info = stable_sort_desc row_votes rows"
    by (rule group_info_Inr)
  have "sorted_wrt (\<lambda>a b. row_votes b \<le> row_votes a) (top_row # rest)"
    using sorted_stable_sort_desc[of row_votes "info_rows info"] w(3) by simp
  then have "row_votes top_row = Max (row_votes ` set (top_row # rest))" by (rule head_desc_Max)
  also have "set (top_row # rest) = set rows"
    using w(3) rows(2) by (metis set_stable_sort_desc)
  also have "row_votes ` set rows = set (map row_votes rows)" by simp
  also have "\<dots> = (\<lambda>r. py_int (fillna 0 (gm_Votes r))) ` set ?g"
    using traverse_result_rows_votes[OF rows(1)] by simp
  finally show ?thesis using g(1,2) w(1,4) by auto
qed


lemma getWinnerInfo_exists:
  assumes "generate_map_build_results_index fs ss t only_poste = Inr results"
    "gm_group_of t only_poste (d, b, p) \<noteq> []"
  shows "\<exists>w. getWinnerInfo up alt (results (d, b)) (pkey_of fs p) = Some w"
proof -
  from generate_map_covers[OF assms] obtain info where
    i: "lookup2 results (d, b) (pkey_of fs p) = Some info" by blast
  then obtain ps where ps: "results (d, b) = Some ps" "ps (pkey_of fs p) = Some info"
    by (auto simp: lookup2_def split: option.splits)
  from generate_map_lookup[OF assms(1) i] obtain p' where
    g: "gm_group_of t only_poste (d, b, p') \<noteq> []"
       "group_info ss t (gm_group_of t only_poste (d, b, p')) = Inr info" by blast
  from g(2) obtain rows where rows:
    "traverse (result_row_of (info_total_valid info)) (gm_group_of t only_poste (d, b, p')) = Inr rows"
    "info_rows info = stable_sort_desc row_votes rows"
    by (rule group_info_Inr)
  from traverse_Inr[OF rows(1)] g(1) have "rows \<noteq> []" by auto
  then have "stable_sort_desc row_votes (info_rows info) \<noteq> []"
    using rows(2) by (metis set_stable_sort_desc set_empty)
  with ps show ?thesis
    by (auto simp: getWinnerInfo_def split: list.splits)
qed

lemma generate_map_entry_pct:
  assumes "generate_map_entry fs ss t only_poste (d, b) pk = Some info" "y \<in> set (info_rows info)"
  shows "row_pct y =
     (if 0 < info_total_valid info
      then py_round2 (fdiv_pos (fmul_pos (float_of_int (row_votes y)) 100)
                        (nearest_double (of_int (info_total_valid info))))
      else Finite 0)"
proof -
  from generate_map_entry_Some[OF assms(1)] obtain p where
    g: "group_info ss t (gm_group_of t only_poste (d, b, p)) = Inr info" by blast
  from g obtain rows where
    rows: "traverse (result_row_of (info_total_valid info)) (gm_group_of t only_poste (d, b, p)) = Inr rows"
      "info_rows info = stable_sort_desc row_votes rows"
    by (rule group_info_Inr)
  from assms(2) rows(2) have "y \<in> set rows" by (simp add: set_stable_sort_desc)
  with traverse_Inr[OF rows(1)] obtain r where
    "result_row_of (info_total_valid info) r = Inr y"
    by (auto simp: list_all2_conv_all_nth in_set_conv_nth)
  then show ?thesis by (auto elim!: result_row_of_Inr simp: py_round2_zero)
qed



lemma result_row_of_total:
  "gm_Votes r \<noteq> None \<Longrightarrow> \<exists>y. result_row_of tv r = Inr y"
  by (auto simp: result_row_of_def bind_err_def py_int_nan_def Let_def)

lemma group_info_total:
  assumes "g \<noteq> []"
    "\<forall>r\<in>set g. gm_Votes r \<noteq> None \<and>
       (gm_has_TotalValidVotes t \<longrightarrow> gm_TotalValidVotes r \<noteq> None) \<and>
       (gm_has_TotalRejectedVotes t \<longrightarrow> gm_TotalRejectedVotes r \<noteq> None) \<and>
       (gm_has_TotalVotes t \<longrightarrow> gm_TotalVotes r \<noteq> None)"
  shows "\<exists>info. group_info ss t g = Inr info"
proof -
  from assms(1) obtain x xs where g: "g = x # xs" by (cases g) auto
  with assms(2) obtain a b c where x:
    "gm_has_TotalValidVotes t \<longrightarrow> gm_TotalValidVotes x = Some a"
    "gm_has_TotalRejectedVotes t \<longrightarrow> gm_TotalRejectedVotes x = Some b"
    "gm_has_TotalVotes t \<longrightarrow> gm_TotalVotes x = Some c"
    by (cases "gm_TotalValidVotes x"; cases "gm_TotalRejectedVotes x"; cases "gm_TotalVotes x") auto
  have tr: "\<exists>rows. traverse (result_row_of tv) g = Inr rows" for tv
    using assms(2) by (intro traverse_total) (auto intro: result_row_of_total)
  have "\<exists>tv. (if gm_has_TotalValidVotes t
               then bind_err (iloc0 g) (\<lambda>r. py_int_nan (gm_TotalValidVotes r))
               else Inr (py_int (votes_sum ss g))) = Inr tv"
    using x(1) g by (cases "gm_has_TotalValidVotes t") (simp_all add: bind_err_def iloc0_def py_int_nan_def)
  then obtain tv where tv: "(if gm_has_TotalValidVotes t
               then bind_err (iloc0 g) (\<lambda>r. py_int_nan (gm_TotalValidVotes r))
               else Inr (py_int (votes_sum ss g))) = Inr tv" by blast
  have "\<exists>rj. (if gm_has_TotalRejectedVotes t
               then bind_err (iloc0 g) (\<lambda>r. py_int_nan (gm_TotalRejectedVotes r))
               else Inr 0) = Inr rj"
    using x(2) g by (cases "gm_has_TotalRejectedVotes t") (simp_all add: bind_err_def iloc0_def py_int_nan_def)
  then obtain rj where rj: "(if gm_has_TotalRejectedVotes t
               then bind_err (iloc0 g) (\<lambda>r. py_int_nan (gm_TotalRejectedVotes r))
               else Inr 0) = Inr rj" by blast
  have "\<exists>tl. (if gm_has_TotalVotes t
               then bind_err (iloc0 g) (\<lambda>r. py_int_nan (gm_TotalVotes r))
               else Inr (tv + rj)) = Inr tl"
    using x(3) g by (cases "gm_has_TotalVotes t") (simp_all add: bind_err_def iloc0_def py_int_nan_def)
  then obtain tl where tl: "(if gm_has_TotalVotes t
               then bind_err (iloc0 g) (\<lambda>r. py_int_nan (gm_TotalVotes r))
               else Inr (tv + rj)) = Inr tl" by blast
  from tr[of tv] obtain rows where rows: "traverse (result_row_of tv) g = Inr rows" by blast
  show ?thesis
    unfolding group_info_def tv rj by (simp add: bind_err_def tl rows)
qed

lemma gm_index_groups_total:
  "\<forall>x\<in>set gs. \<exists>info. group_info ss t (snd x) = Inr info \<Longrightarrow>
   \<exists>idx. gm_index_groups fs ss t gs idx0 = Inr idx"
proof (induction gs arbitrary: idx0)
  case Nil
  then show ?case by simp
next
  case (Cons x gs)
  obtain d b p g where x: "x = ((d, b, p), g)" by (metis surj_pair)
  from Cons.prems x obtain info where i: "group_info ss t g = Inr info" by auto
  from Cons.prems have "\<forall>x\<in>set gs. \<exists>info. group_info ss t (snd x) = Inr info" by simp
  from Cons.IH[OF this] show ?case using x i by simp
qed

lemma generate_map_total:
  assumes "\<forall>r\<in>set (gm_rows t). gm_Votes r \<noteq> None \<and>
       (gm_has_TotalValidVotes t \<longrightarrow> gm_TotalValidVotes r \<noteq> None) \<and>
       (gm_has_TotalRejectedVotes t \<longrightarrow> gm_TotalRejectedVotes r \<noteq> None) \<and>
       (gm_has_TotalVotes t \<longrightarrow> gm_TotalVotes r \<noteq> None)"
  shows "\<exists>results. generate_map_build_results_index fs ss t only_poste = Inr results"
proof -
  let ?df = "filter_only_poste only_poste (gm_rows t)"
  let ?key = "\<lambda>r. (DistrictID_norm r, Bureau_norm r, gm_Poste r)"
  have sub: "set ?df \<subseteq> set (gm_rows t)" by (auto simp: filter_only_poste_def)
  have "\<exists>info. group_info ss t (snd x) = Inr info" if "x \<in> set (groupby ?key ?df)" for x
  proof -
    obtain k g where x: "x = (k, g)" by (cases x)
    with that have "(k, g) \<in> set (groupby ?key ?df)" by simp
    then have "k \<in> ?key ` set ?df \<and> g = filter (\<lambda>r. ?key r = k) ?df"
      by (simp only: set_groupby)
    with x have k: "k \<in> ?key ` set ?df" "snd x = filter (\<lambda>r. ?key r = k) ?df"
      by simp_all
    from k(1) have ne: "snd x \<noteq> []" unfolding k(2) by (auto simp: filter_empty_conv)
    have "set (snd x) \<subseteq> set (gm_rows t)" unfolding k(2) using sub by auto
    with assms have "\<forall>r\<in>set (snd x). gm_Votes r \<noteq> None \<and>
       (gm_has_TotalValidVotes t \<longrightarrow> gm_TotalValidVotes r \<noteq> None) \<and>
       (gm_has_TotalRejectedVotes t \<longrightarrow> gm_TotalRejectedVotes r \<noteq> None) \<and>
       (gm_has_TotalVotes t \<longrightarrow> gm_TotalVotes r \<noteq> None)" by blast
    from group_info_total[OF ne this] show ?thesis .
  qed
  then show ?thesis
    unfolding generate_map_build_results_index_def by (intro gm_index_groups_total) blast
qed

section \<open>gen\_mairie.py: what a line of the winners is\<close>

lemma mairie_lookup:
  assumes "build_winner_index (load_results fs srt rs) k = Some res"
  shows "filter (\<lambda>r. (m_District r, m_PosteNorm r) = k) (srt (map (mairie_prepare fs) rs)) \<noteq> []"
    "res = first_of_group (filter (\<lambda>r. (m_District r, m_PosteNorm r) = k) (srt (map (mairie_prepare fs) rs)))"
proof -
  let ?key = "\<lambda>r. (m_District r, m_PosteNorm r)"
  let ?df = "srt (map (mairie_prepare fs) rs)"
  from assms have "map_option first_of_group (map_of (groupby ?key ?df) k) = Some res"
    by (simp add: build_winner_index_def load_results_def map_of_map)
  then have *: "k \<in> ?key ` set ?df" "res = first_of_group (filter (\<lambda>x. ?key x = k) ?df)"
    unfolding map_of_groupby by (auto split: if_splits)
  from *(1) show "filter (\<lambda>r. ?key r = k) ?df \<noteq> []" by (auto simp: filter_empty_conv)
  from *(2) show "res = first_of_group (filter (\<lambda>r. ?key r = k) ?df)" .
qed

lemma mairie_sorted_group:
  assumes "sorts_descending m_VotesNum srt"
  shows "mset (filter (\<lambda>r. (m_District r, m_PosteNorm r) = k) (srt (map (mairie_prepare fs) rs))) =
           mset (mairie_group_of fs rs k)"
    "sorted_wrt (\<lambda>a b. m_VotesNum b \<le> m_VotesNum a)
       (filter (\<lambda>r. (m_District r, m_PosteNorm r) = k) (srt (map (mairie_prepare fs) rs)))"
proof -
  let ?df = "map (mairie_prepare fs) rs"
  from assms have c: "mset (srt ?df) = mset ?df"
    "sorted_wrt (\<lambda>a b. m_VotesNum b \<le> m_VotesNum a) (srt ?df)"
    by (auto simp: sorts_descending_def)
  show "mset (filter (\<lambda>r. (m_District r, m_PosteNorm r) = k) (srt ?df)) = mset (mairie_group_of fs rs k)"
    unfolding mairie_group_of_def mset_filter c(1) ..
  show "sorted_wrt (\<lambda>a b. m_VotesNum b \<le> m_VotesNum a)
       (filter (\<lambda>r. (m_District r, m_PosteNorm r) = k) (srt ?df))"
    using c(2) by (rule sorted_wrt_filter)
qed

lemma mairie_covers:
  assumes "sorts_descending m_VotesNum srt" "mairie_group_of fs rs k \<noteq> []"
  shows "\<exists>res. build_winner_index (load_results fs srt rs) k = Some res"
proof -
  let ?key = "\<lambda>r. (m_District r, m_PosteNorm r)"
  let ?df = "srt (map (mairie_prepare fs) rs)"
  from assms(2) have "mset (mairie_group_of fs rs k) \<noteq> {#}" by simp
  then have "mset (filter (\<lambda>r. ?key r = k) ?df) \<noteq> {#}"
    unfolding mairie_sorted_group(1)[OF assms(1), of k fs rs] .
  then have "filter (\<lambda>r. ?key r = k) ?df \<noteq> []" by (auto simp: filter_empty_conv)
  then have "k \<in> ?key ` set ?df" by (auto simp: filter_empty_conv)
  then show ?thesis
    by (simp add: build_winner_index_def load_results_def map_of_map map_of_groupby)
qed

lemma mairie_winner_votes_max:
  assumes "sorts_descending m_VotesNum srt" "build_winner_index (load_results fs srt rs) k = Some res"
  shows "mairie_group_of fs rs k \<noteq> [] \<and>
     injected_winner_votes res = Inr (Max ((\<lambda>r. py_int (m_VotesNum r)) ` set (mairie_group_of fs rs k)))"
proof -
  let ?key = "\<lambda>r. (m_District r, m_PosteNorm r)"
  let ?g = "filter (\<lambda>r. ?key r = k) (srt (map (mairie_prepare fs) rs))"
  note l = mairie_lookup[OF assms(2)]
  from l(1) obtain w rest where g: "?g = w # rest" by (cases ?g) auto
  have m: "mset (w # rest) = mset (mairie_group_of fs rs k)"
    unfolding g[symmetric] by (rule mairie_sorted_group(1)[OF assms(1)])
  have s: "sorted_wrt (\<lambda>a b. m_VotesNum b \<le> m_VotesNum a) (w # rest)"
    unfolding g[symmetric] by (rule mairie_sorted_group(2)[OF assms(1)])
  from m have ne: "mairie_group_of fs rs k \<noteq> []" by auto
  have "w_Votes res = Some (m_VotesNum w)"
    using l(2) g by (simp add: first_of_group_def)
  then have "injected_winner_votes res = Inr (py_int (m_VotesNum w))"
    by (simp add: injected_winner_votes_def py_int_nan_def)
  with head_of_descending_is_max(2)[OF s m] ne show ?thesis by simp
qed



section \<open>The sum of the votes and the keys of the offices\<close>

lemma map_filter_all_Some:
  "\<forall>r\<in>set g. f r \<noteq> None \<Longrightarrow> List.map_filter f g = map (\<lambda>r. the (f r)) g"
  by (induction g) (auto simp: List.map_filter_simps)

lemma sum_list_of_int_map: "sum_list (map (\<lambda>r. (of_int (f r) :: rat)) g) = of_int (sum_list (map f g))"
  by (induction g) auto

lemma votes_sum_general:
  assumes "\<forall>r\<in>set g. gm_Votes r \<noteq> None"
  shows "votes_sum ss g = ss (map (\<lambda>r. fillna 0 (gm_Votes r)) g)"
proof -
  have eq: "map (\<lambda>r. the (gm_Votes r)) g = map (\<lambda>r. fillna 0 (gm_Votes r)) g"
    using assms by (intro map_cong) (auto simp: fillna_def)
  show ?thesis
    unfolding votes_sum_def map_filter_all_Some[OF assms] eq ..
qed

lemma votes_sum_exact:
  assumes "sums_counts ss" "\<forall>r\<in>set g. \<exists>i. gm_Votes r = Some (of_int i)"
    "sum_list (map (\<lambda>r. \<bar>fillna 0 (gm_Votes r)\<bar>) g) \<le> 2 ^ 53"
  shows "py_int (votes_sum ss g) = sum_list (map (\<lambda>r. py_int (fillna 0 (gm_Votes r))) g)"
proof -
  let ?vs = "map (\<lambda>r. fillna 0 (gm_Votes r)) g"
  from assms(2) have some: "\<forall>r\<in>set g. gm_Votes r \<noteq> None" by auto
  have ints: "fillna 0 (gm_Votes r) = of_int (py_int (fillna 0 (gm_Votes r)))" if "r \<in> set g" for r
    using assms(2) that by (auto simp: fillna_def py_int_of_int)
  have "\<forall>v\<in>set ?vs. of_int \<lfloor>v\<rfloor> = v" using assms(2) by (auto simp: fillna_def)
  moreover have "sum_list (map abs ?vs) \<le> 2 ^ 53" using assms(3) by (simp add: comp_def)
  ultimately have 1: "ss ?vs = sum_list ?vs" using assms(1) unfolding sums_counts_def by blast
  have 2: "?vs = map (\<lambda>r. of_int (py_int (fillna 0 (gm_Votes r)))) g"
    using ints by (intro map_cong) auto
  have "sum_list ?vs = of_int (sum_list (map (\<lambda>r. py_int (fillna 0 (gm_Votes r))) g))"
    by (subst 2) (rule sum_list_of_int_map)
  with 1 have "ss ?vs = of_int (sum_list (map (\<lambda>r. py_int (fillna 0 (gm_Votes r))) g))" by simp
  then show ?thesis
    unfolding votes_sum_general[OF some] by (simp only: py_int_of_int)
qed

lemma sums_counts_sum_list: "sums_counts sum_list"
  by (simp add: sums_counts_def)

lemma generate_map_lookup_group:
  assumes "generate_map_build_results_index fs ss t only_poste = Inr results"
    "gm_group_of t only_poste (d, b, p) \<noteq> []"
    "\<forall>p'. gm_group_of t only_poste (d, b, p') \<noteq> [] \<and> pkey_of fs p' = pkey_of fs p \<longrightarrow> p' = p"
  shows "\<exists>info. lookup2 results (d, b) (pkey_of fs p) = Some info \<and>
           group_info ss t (gm_group_of t only_poste (d, b, p)) = Inr info"
proof -
  from generate_map_covers[OF assms(1,2)] obtain info where
    i: "lookup2 results (d, b) (pkey_of fs p) = Some info" by blast
  from generate_map_lookup[OF assms(1) i] obtain p' where
    p': "pkey_of fs p = pkey_of fs p'" "gm_group_of t only_poste (d, b, p') \<noteq> []"
      "group_info ss t (gm_group_of t only_poste (d, b, p')) = Inr info" by blast
  from assms(3) p'(1,2) have "p' = p" by auto
  with i p'(3) show ?thesis by auto
qed

lemma show_nat_digits: "set (show_nat n) \<subseteq> set ''0123456789''"
proof (induction n rule: show_nat.induct)
  case (1 n)
  have d: "digit_char k \<in> set ''0123456789''" if "k < 10" for k
    unfolding digit_char_def using that by (intro nth_mem) simp
  show ?case
  proof (cases "n < 10")
    case True
    then show ?thesis using d[of n] by (subst show_nat.simps) simp
  next
    case False
    then show ?thesis using 1 d[of "n mod 10"] by (subst show_nat.simps) auto
  qed
qed

lemma show_int_no_point: "CHR ''.'' \<notin> set (show_int i)"
  using show_nat_digits[of "nat i"] show_nat_digits[of "nat (- i)"]
  by (auto simp: show_int_def)

lemma pkey_of_integral: "pkey_of fs (Some (of_int i)) = show_int i"
  by (simp add: pkey_of_def py_int_of_int)

lemma py_int_floor: "of_int \<lfloor>q\<rfloor> = q \<Longrightarrow> py_int q = \<lfloor>q\<rfloor>"
  by (metis py_int_of_int)

section \<open>Evaluation on concrete tables\<close>

lemmas strings_eval = show_int_def show_nat.simps digit_char_def zfill_def strip_def is_space_def
  normalize_str_def poste_norm_def poste_key_def astype_str_def is_digit_def norm_digits_def
  norm_bureau3_def js_trim_def is_js_space_def no_float_str_def

lemmas genmap3_eval = genmap3_entry_def genmap3_build_results_index_def prepare_def prepare_row_def
  groupby_def aggregate_group_def bind_err_def iloc0_def group_total_def col_max_def
  List.map_filter_simps total_for_pct_def positive_def breakdown_of_def setdefault_put_def
  lookup2_def group_of_def sort_values_stable_def stable_sort_desc_def
  csv_line_def csv_file_def strings_eval numbers_eval Let_def

lemmas generate_map_eval = generate_map_entry_def generate_map_build_results_index_def groupby_def
  filter_only_poste_def DistrictID_norm_def Bureau_norm_def str_district_def str_bureau_def
  group_info_def bind_err_def iloc0_def votes_sum_def List.map_filter_simps result_row_of_def
  stable_sort_desc_def pkey_of_def setdefault_put_def lookup2_def gm_group_of_def getWinnerInfo_def
  key_found_def gm_line_def gm_file_def strings_eval numbers_eval Let_def

lemmas mairie_eval = build_winner_index_def load_results_def groupby_def mairie_prepare_def
  first_of_group_def injected_winner_votes_def mairie_group_of_def mairie_sort_stable_def
  stable_sort_desc_def mairie_line_def strings_eval numbers_eval

section \<open>The winner under the key of an office, and a tie that no sort decides\<close>

lemma getWinnerInfo_covers_max:
  assumes "generate_map_build_results_index fs ss t only_poste = Inr results"
    "gm_group_of t only_poste (d, b, p) \<noteq> []"
    "\<forall>p'. gm_group_of t only_poste (d, b, p') \<noteq> [] \<and> pkey_of fs p' = pkey_of fs p \<longrightarrow> p' = p"
  shows "\<exists>w. getWinnerInfo up alt (results (d, b)) (pkey_of fs p) = Some w \<and>
     win_votes w = Max ((\<lambda>r. py_int (fillna 0 (gm_Votes r))) ` set (gm_group_of t only_poste (d, b, p)))"
proof -
  from getWinnerInfo_exists[OF assms(1,2)] obtain w where
    w: "getWinnerInfo up alt (results (d, b)) (pkey_of fs p) = Some w" by blast
  from generate_map_covers[OF assms(1,2)] obtain info where
    i: "lookup2 results (d, b) (pkey_of fs p) = Some info" by blast
  from getWinnerInfo_votes_max[OF assms(1) w] obtain ps p' where
    p': "results (d, b) = Some ps" "pkey_of fs p' = key_found alt ps (pkey_of fs p)"
      "gm_group_of t only_poste (d, b, p') \<noteq> []"
      "win_votes w = Max ((\<lambda>r. py_int (fillna 0 (gm_Votes r))) ` set (gm_group_of t only_poste (d, b, p')))"
    by blast
  from i p'(1) have "ps (pkey_of fs p) = Some info" by (simp add: lookup2_def)
  then have "key_found alt ps (pkey_of fs p) = pkey_of fs p" by (simp add: key_found_def)
  with p'(2,3) assms(3) have "p' = p" by auto
  with w p'(4) show ?thesis by auto
qed



section \<open>The claims\<close>

text \<open>
  C9. A table without rows gives an empty index and no error: both
  \<^verbatim>\<open>build_results_index\<close> (genmap3.py and generate\_map.py) return the empty dictionary,
  whatever columns the file declares.
\<close>

theorem empty_table_gives_empty_index:
  "genmap3_build_results_index float_str sort_values (t\<lparr>csv_rows := []\<rparr>) = Inr Map.empty \<and>
   generate_map_build_results_index float_str series_sum (u\<lparr>gm_rows := []\<rparr>) only_poste = Inr Map.empty"
  by (simp add: genmap3_build_results_index_def prepare_def groupby_def
        generate_map_build_results_index_def filter_only_poste_def)

text \<open>
  C1. Every non-empty group of rows gets a record, and the winner's votes of the record
  are the maximum of the votes of the rows of that group (the votes compared are the
  integers the scripts emit).

  In genmap3.py the index has an entry under (office, section) exactly when rows share
  that key, and its \<^verbatim>\<open>winner_votes\<close> is the maximum over those rows; the run ends without
  an error when every ElectoralDistrictID is a number.

  In generate\_map.py the winner is what \<^verbatim>\<open>getWinnerInfo\<close> takes from the entry it finds
  under the key asked: the group it stands for is the group of an office whose key is the
  key found, and the votes are the maximum of that group. Conversely every non-empty
  group (district, bureau, office) has a winner under the key of its office, with the
  maximum of that very group, provided no other office of the section is written under
  the same key. The run ends without an error when no Votes cell is empty and no cell of
  a total column that the file has is empty.

  In gen\_mairie.py the winners hold a line for a (district, office) exactly when rows
  share it, and the votes that \<^verbatim>\<open>inject_results_in_geojson\<close> writes are the maximum of
  those rows.
\<close>

theorem winner_votes_is_group_maximum:
  "(sorts_descending VotesNum sort_values \<and>
    genmap3_build_results_index float_str sort_values t = Inr idx \<longrightarrow>
      (lookup2 idx poste sec_code = None) = (group_of float_str t poste sec_code = []) \<and>
      (\<forall>a. lookup2 idx poste sec_code = Some a \<longrightarrow>
         winner_votes a =
           Max ((\<lambda>r. py_int (VotesNum r)) ` set (group_of float_str t poste sec_code)))) \<and>
   (sorts_descending VotesNum sort_values \<and>
    (\<forall>r\<in>set (csv_rows t). to_numeric (ElectoralDistrictID r) \<noteq> None) \<longrightarrow>
      (\<exists>idx'. genmap3_build_results_index float_str sort_values t = Inr idx')) \<and>
   (generate_map_build_results_index float_str series_sum u only_poste = Inr results \<and>
    getWinnerInfo to_upper_case alt_key (results (d, b)) posteKeyStr = Some w \<longrightarrow>
      (\<exists>ps p. results (d, b) = Some ps \<and>
         pkey_of float_str p = key_found alt_key ps posteKeyStr \<and>
         gm_group_of u only_poste (d, b, p) \<noteq> [] \<and>
         win_votes w =
           Max ((\<lambda>r. py_int (fillna 0 (gm_Votes r))) ` set (gm_group_of u only_poste (d, b, p))))) \<and>
   (generate_map_build_results_index float_str series_sum u only_poste = Inr results \<and>
    gm_group_of u only_poste (d, b, office) \<noteq> [] \<and>
    (\<forall>p'. gm_group_of u only_poste (d, b, p') \<noteq> [] \<and>
          pkey_of float_str p' = pkey_of float_str office \<longrightarrow> p' = office) \<longrightarrow>
      (\<exists>w'. getWinnerInfo to_upper_case alt_key (results (d, b)) (pkey_of float_str office) = Some w' \<and>
         win_votes w' =
           Max ((\<lambda>r. py_int (fillna 0 (gm_Votes r))) ` set (gm_group_of u only_poste (d, b, office))))) \<and>
   ((\<forall>r\<in>set (gm_rows u).
        gm_Votes r \<noteq> None \<and>
        (gm_has_TotalValidVotes u \<longrightarrow> gm_TotalValidVotes r \<noteq> None) \<and>
        (gm_has_TotalRejectedVotes u \<longrightarrow> gm_TotalRejectedVotes r \<noteq> None) \<and>
        (gm_has_TotalVotes u \<longrightarrow> gm_TotalVotes r \<noteq> None)) \<longrightarrow>
      (\<exists>results'. generate_map_build_results_index float_str series_sum u only_poste = Inr results')) \<and>
   (sorts_descending m_VotesNum sort_values_m \<longrightarrow>
      (build_winner_index (load_results float_str sort_values_m rs) k = None) =
        (mairie_group_of float_str rs k = []) \<and>
      (\<forall>res. build_winner_index (load_results float_str sort_values_m rs) k = Some res \<longrightarrow>
         injected_winner_votes res =
           Inr (Max ((\<lambda>r. py_int (m_VotesNum r)) ` set (mairie_group_of float_str rs k)))))"
proof -
  have c1: "sorts_descending VotesNum sort_values \<and>
    genmap3_build_results_index float_str sort_values t = Inr idx \<longrightarrow>
      (lookup2 idx poste sec_code = None) = (group_of float_str t poste sec_code = []) \<and>
      (\<forall>a. lookup2 idx poste sec_code = Some a \<longrightarrow>
         winner_votes a =
           Max ((\<lambda>r. py_int (VotesNum r)) ` set (group_of float_str t poste sec_code)))"
  proof (intro impI)
    assume h: "sorts_descending VotesNum sort_values \<and>
      genmap3_build_results_index float_str sort_values t = Inr idx"
    then have s: "sorts_descending VotesNum sort_values"
      and i: "genmap3_build_results_index float_str sort_values t = Inr idx" by simp_all
    have 1: "(lookup2 idx poste sec_code = None) = (group_of float_str t poste sec_code = [])"
      using genmap3_covers[OF i, of poste sec_code] genmap3_lookup(1)[OF i, of poste sec_code]
      by (cases "lookup2 idx poste sec_code") auto
    have 2: "winner_votes a =
           Max ((\<lambda>r. py_int (VotesNum r)) ` set (group_of float_str t poste sec_code))"
      if "lookup2 idx poste sec_code = Some a" for a
    proof -
      from i that have "genmap3_entry float_str sort_values t poste sec_code = Some a"
        by (simp add: genmap3_entry_def)
      from genmap3_winner_votes_max[OF s this] show ?thesis by simp
    qed
    from 1 2 show "(lookup2 idx poste sec_code = None) = (group_of float_str t poste sec_code = []) \<and>
      (\<forall>a. lookup2 idx poste sec_code = Some a \<longrightarrow>
         winner_votes a =
           Max ((\<lambda>r. py_int (VotesNum r)) ` set (group_of float_str t poste sec_code)))"
      by blast
  qed
  have c2: "sorts_descending VotesNum sort_values \<and>
    (\<forall>r\<in>set (csv_rows t). to_numeric (ElectoralDistrictID r) \<noteq> None) \<longrightarrow>
      (\<exists>idx'. genmap3_build_results_index float_str sort_values t = Inr idx')"
    using genmap3_total by blast
  have c3: "generate_map_build_results_index float_str series_sum u only_poste = Inr results \<and>
    getWinnerInfo to_upper_case alt_key (results (d, b)) posteKeyStr = Some w \<longrightarrow>
      (\<exists>ps p. results (d, b) = Some ps \<and>
         pkey_of float_str p = key_found alt_key ps posteKeyStr \<and>
         gm_group_of u only_poste (d, b, p) \<noteq> [] \<and>
         win_votes w =
           Max ((\<lambda>r. py_int (fillna 0 (gm_Votes r))) ` set (gm_group_of u only_poste (d, b, p))))"
    using getWinnerInfo_votes_max by blast
  have c4: "generate_map_build_results_index float_str series_sum u only_poste = Inr results \<and>
    gm_group_of u only_poste (d, b, office) \<noteq> [] \<and>
    (\<forall>p'. gm_group_of u only_poste (d, b, p') \<noteq> [] \<and>
          pkey_of float_str p' = pkey_of float_str office \<longrightarrow> p' = office) \<longrightarrow>
      (\<exists>w'. getWinnerInfo to_upper_case alt_key (results (d, b)) (pkey_of float_str office) = Some w' \<and>
         win_votes w' =
           Max ((\<lambda>r. py_int (fillna 0 (gm_Votes r))) ` set (gm_group_of u only_poste (d, b, office))))"
  proof (intro impI)
    assume h: "generate_map_build_results_index float_str series_sum u only_poste = Inr results \<and>
      gm_group_of u only_poste (d, b, office) \<noteq> [] \<and>
      (\<forall>p'. gm_group_of u only_poste (d, b, p') \<noteq> [] \<and>
          pkey_of float_str p' = pkey_of float_str office \<longrightarrow> p' = office)"
    then have 1: "generate_map_build_results_index float_str series_sum u only_poste = Inr results"
      and 2: "gm_group_of u only_poste (d, b, office) \<noteq> []"
      and 3: "\<forall>p'. gm_group_of u only_poste (d, b, p') \<noteq> [] \<and>
          pkey_of float_str p' = pkey_of float_str office \<longrightarrow> p' = office" by simp_all
    from getWinnerInfo_covers_max[OF 1 2 3]
    show "\<exists>w'. getWinnerInfo to_upper_case alt_key (results (d, b)) (pkey_of float_str office) = Some w' \<and>
         win_votes w' =
           Max ((\<lambda>r. py_int (fillna 0 (gm_Votes r))) ` set (gm_group_of u only_poste (d, b, office)))" .
  qed
  have c5: "(\<forall>r\<in>set (gm_rows u).
        gm_Votes r \<noteq> None \<and>
        (gm_has_TotalValidVotes u \<longrightarrow> gm_TotalValidVotes r \<noteq> None) \<and>
        (gm_has_TotalRejectedVotes u \<longrightarrow> gm_TotalRejectedVotes r \<noteq> None) \<and>
        (gm_has_TotalVotes u \<longrightarrow> gm_TotalVotes r \<noteq> None)) \<longrightarrow>
      (\<exists>results'. generate_map_build_results_index float_str series_sum u only_poste = Inr results')"
    by (intro impI) (rule generate_map_total)
  have c6: "sorts_descending m_VotesNum sort_values_m \<longrightarrow>
      (build_winner_index (load_results float_str sort_values_m rs) k = None) =
        (mairie_group_of float_str rs k = []) \<and>
      (\<forall>res. build_winner_index (load_results float_str sort_values_m rs) k = Some res \<longrightarrow>
         injected_winner_votes res =
           Inr (Max ((\<lambda>r. py_int (m_VotesNum r)) ` set (mairie_group_of float_str rs k))))"
  proof (intro impI)
    assume s: "sorts_descending m_VotesNum sort_values_m"
    have 1: "(build_winner_index (load_results float_str sort_values_m rs) k = None) =
        (mairie_group_of float_str rs k = [])"
      using mairie_covers[OF s, of float_str rs k] mairie_winner_votes_max[OF s, of float_str rs k]
      by (cases "build_winner_index (load_results float_str sort_values_m rs) k") auto
    have 2: "injected_winner_votes res =
           Inr (Max ((\<lambda>r. py_int (m_VotesNum r)) ` set (mairie_group_of float_str rs k)))"
      if "build_winner_index (load_results float_str sort_values_m rs) k = Some res" for res
      using mairie_winner_votes_max[OF s that] by simp
    from 1 2 show "(build_winner_index (load_results float_str sort_values_m rs) k = None) =
        (mairie_group_of float_str rs k = []) \<and>
      (\<forall>res. build_winner_index (load_results float_str sort_values_m rs) k = Some res \<longrightarrow>
         injected_winner_votes res =
           Inr (Max ((\<lambda>r. py_int (m_VotesNum r)) ` set (mairie_group_of float_str rs k))))"
      by blast
  qed
  show ?thesis by (intro conjI c1 c2 c3 c4 c5 c6)
qed

theorem winner_votes_is_group_maximum_witness:
  "sorts_descending VotesNum sort_values_stable \<and>
   map_option winner_votes
     (genmap3_entry no_float_str sort_values_stable example_csv ''0'' ''011-037'') = Some 30 \<and>
   generate_map_build_results_index no_float_str sum_list two_offices_gm [] \<noteq> Inl ValueError \<and>
   map_option win_votes
     (getWinnerInfo (\<lambda>s. s) (\<lambda>k. k)
        (case generate_map_build_results_index no_float_str sum_list two_offices_gm [] of
           Inl e \<Rightarrow> None | Inr results \<Rightarrow> results (''11'', ''037'')) ''0'') = Some 30 \<and>
   map_option win_votes
     (getWinnerInfo (\<lambda>s. s) (\<lambda>k. k)
        (case generate_map_build_results_index no_float_str sum_list two_offices_gm [] of
           Inl e \<Rightarrow> None | Inr results \<Rightarrow> results (''11'', ''037'')) ''1'') = Some 7 \<and>
   sorts_descending m_VotesNum mairie_sort_stable \<and>
   map_option injected_winner_votes
     (build_winner_index (load_results no_float_str mairie_sort_stable example_mairie) (''11'', ''0.00''))
     = Some (Inr 30)"
proof -
  note T = winner_votes_is_group_maximum
  have s1: "sorts_descending VotesNum sort_values_stable"
    unfolding sort_values_stable_def[abs_def] by (rule sorts_descending_stable)
  have ids: "\<forall>r\<in>set (csv_rows example_csv). to_numeric (ElectoralDistrictID r) \<noteq> None"
    by (simp add: example_csv_def csv_file_def csv_line_def)
  from T[THEN conjunct2, THEN conjunct1, rule_format, OF conjI[OF s1 ids]]
  obtain idx where idx: "genmap3_build_results_index no_float_str sort_values_stable example_csv = Inr idx"
    by blast
  have g1: "map (\<lambda>r. py_int (VotesNum r)) (group_of no_float_str example_csv ''0'' ''011-037'') = [20, 30]"
    by (simp add: example_csv_def genmap3_eval)
  then have ne1: "group_of no_float_str example_csv ''0'' ''011-037'' \<noteq> []" by auto
  note e1 = T[THEN conjunct1, rule_format, OF conjI[OF s1 idx], of "''0''" "''011-037''"]
  from e1[THEN conjunct1] ne1 obtain a where a: "lookup2 idx ''0'' ''011-037'' = Some a" by auto
  from e1[THEN conjunct2, rule_format, OF a]
  have "winner_votes a = Max (set (map (\<lambda>r. py_int (VotesNum r)) (group_of no_float_str example_csv ''0'' ''011-037'')))"
    by simp
  with g1 have "winner_votes a = 30" by simp
  with a idx have c1: "map_option winner_votes
     (genmap3_entry no_float_str sort_values_stable example_csv ''0'' ''011-037'') = Some 30"
    by (simp add: genmap3_entry_def)
  have rows_ok: "\<forall>r\<in>set (gm_rows two_offices_gm).
        gm_Votes r \<noteq> None \<and>
        (gm_has_TotalValidVotes two_offices_gm \<longrightarrow> gm_TotalValidVotes r \<noteq> None) \<and>
        (gm_has_TotalRejectedVotes two_offices_gm \<longrightarrow> gm_TotalRejectedVotes r \<noteq> None) \<and>
        (gm_has_TotalVotes two_offices_gm \<longrightarrow> gm_TotalVotes r \<noteq> None)"
    by (simp add: two_offices_gm_def gm_file_def gm_line_def)
  from T[THEN conjunct2, THEN conjunct2, THEN conjunct2, THEN conjunct2, THEN conjunct1,
      THEN mp, OF rows_ok]
  obtain results where r: "generate_map_build_results_index no_float_str sum_list two_offices_gm [] = Inr results"
    by blast
  have groups: "p = Some 0 \<or> p = Some 1" if "gm_group_of two_offices_gm [] (''11'', ''037'', p) \<noteq> []" for p
    using that by (auto simp add: two_offices_gm_def generate_map_eval split: if_splits)
  have g0: "map (\<lambda>r. py_int (fillna 0 (gm_Votes r))) (gm_group_of two_offices_gm [] (''11'', ''037'', Some 0)) = [20, 30]"
    by (simp add: two_offices_gm_def generate_map_eval)
  have g1': "map (\<lambda>r. py_int (fillna 0 (gm_Votes r))) (gm_group_of two_offices_gm [] (''11'', ''037'', Some 1)) = [5, 7]"
    by (simp add: two_offices_gm_def generate_map_eval)
  have k0: "pkey_of no_float_str (Some 0) = ''0''" and k1: "pkey_of no_float_str (Some 1) = ''1''"
    by (simp_all add: pkey_of_def strings_eval numbers_eval)
  obtain w where w: "getWinnerInfo (\<lambda>s. s) (\<lambda>k. k) (results (''11'', ''037'')) ''0'' = Some w"
    using r by (auto simp add: two_offices_gm_def generate_map_eval)
  from T[THEN conjunct2, THEN conjunct2, THEN conjunct1, rule_format, OF conjI[OF r w]]
  obtain ps p where p: "pkey_of no_float_str p = key_found (\<lambda>k. k) ps ''0''"
    "gm_group_of two_offices_gm [] (''11'', ''037'', p) \<noteq> []"
    "win_votes w = Max (set (map (\<lambda>r. py_int (fillna 0 (gm_Votes r))) (gm_group_of two_offices_gm [] (''11'', ''037'', p))))"
    by auto
  have "key_found (\<lambda>k. k) ps ''0'' = ''0''" by (simp add: key_found_def split: option.splits)
  with p(1) groups[OF p(2)] k1 have "p = Some 0" by auto
  with p(3) g0 have c2: "win_votes w = 30" by simp
  have ne: "gm_group_of two_offices_gm [] (''11'', ''037'', Some 1) \<noteq> []" using g1' by auto
  have noclash: "\<forall>p'. gm_group_of two_offices_gm [] (''11'', ''037'', p') \<noteq> [] \<and>
          pkey_of no_float_str p' = pkey_of no_float_str (Some 1) \<longrightarrow> p' = Some 1"
  proof (intro allI impI)
    fix p' assume h: "gm_group_of two_offices_gm [] (''11'', ''037'', p') \<noteq> [] \<and>
          pkey_of no_float_str p' = pkey_of no_float_str (Some 1)"
    with groups[of p'] have "p' = Some 0 \<or> p' = Some 1" by blast
    then show "p' = Some 1"
    proof
      assume "p' = Some 0"
      with h k0 k1 show ?thesis by simp
    qed
  qed
  from T[THEN conjunct2, THEN conjunct2, THEN conjunct2, THEN conjunct1, rule_format,
      OF conjI[OF r conjI[OF ne noclash]], of "\<lambda>s. s" "\<lambda>k. k"]
  obtain w' where w': "getWinnerInfo (\<lambda>s. s) (\<lambda>k. k) (results (''11'', ''037'')) ''1'' = Some w'"
    "win_votes w' = Max (set (map (\<lambda>r. py_int (fillna 0 (gm_Votes r))) (gm_group_of two_offices_gm [] (''11'', ''037'', Some 1))))"
    unfolding k1 by auto
  from w'(2) g1' have c3: "win_votes w' = 7" by simp
  have s3: "sorts_descending m_VotesNum mairie_sort_stable"
    unfolding mairie_sort_stable_def[abs_def] by (rule sorts_descending_stable)
  have g3: "map (\<lambda>r. py_int (m_VotesNum r)) (mairie_group_of no_float_str example_mairie (''11'', ''0.00'')) = [20, 30]"
    by (simp add: example_mairie_def mairie_eval)
  then have ne3: "mairie_group_of no_float_str example_mairie (''11'', ''0.00'') \<noteq> []" by auto
  note e3 = T[THEN conjunct2, THEN conjunct2, THEN conjunct2, THEN conjunct2, THEN conjunct2,
      rule_format, OF s3, of no_float_str example_mairie "(''11'', ''0.00'')"]
  from e3[THEN conjunct1] ne3 obtain res where
    res: "build_winner_index (load_results no_float_str mairie_sort_stable example_mairie) (''11'', ''0.00'') = Some res"
    by auto
  from e3[THEN conjunct2, rule_format, OF res]
  have "injected_winner_votes res =
      Inr (Max (set (map (\<lambda>r. py_int (m_VotesNum r)) (mairie_group_of no_float_str example_mairie (''11'', ''0.00'')))))"
    by simp
  with g3 have c4: "injected_winner_votes res = Inr 30" by simp
  from s1 c1 r w c2 w' c3 s3 res c4 show ?thesis by simp
qed

text \<open>
  C10. \<^verbatim>\<open>build_results_index\<close> of generate\_map.py fills in the totals of a group whose
  columns are not in the file. Every non-empty group (district, bureau, office) has an
  entry under the key of its office (no other office of the section being written under
  the same key), and in it: without the column TotalValidVotes the field \<^verbatim>\<open>total_valid\<close>
  is the integer part of the sum of the Votes of the rows of the group, which is the sum
  of the votes of the rows when these are whole numbers; without TotalRejectedVotes the
  field \<^verbatim>\<open>rejected\<close> is 0; without TotalVotes the field \<^verbatim>\<open>total\<close> is
  \<^verbatim>\<open>total_valid + rejected\<close>. Every entry of the index is the entry of such a group.
\<close>

theorem missing_total_columns_are_synthesized:
  "(generate_map_build_results_index float_str series_sum t only_poste = Inr results \<and>
    gm_group_of t only_poste (d, b, office) \<noteq> [] \<and>
    (\<forall>p'. gm_group_of t only_poste (d, b, p') \<noteq> [] \<and>
          pkey_of float_str p' = pkey_of float_str office \<longrightarrow> p' = office) \<longrightarrow>
      (\<exists>info. lookup2 results (d, b) (pkey_of float_str office) = Some info \<and>
         (\<not> gm_has_TotalValidVotes t \<longrightarrow>
            info_total_valid info =
              py_int (series_sum (map (\<lambda>r. fillna 0 (gm_Votes r)) (gm_group_of t only_poste (d, b, office)))) \<and>
            (sums_counts series_sum \<and>
             (\<forall>r\<in>set (gm_group_of t only_poste (d, b, office)). \<exists>i. gm_Votes r = Some (of_int i)) \<and>
             sum_list (map (\<lambda>r. \<bar>fillna 0 (gm_Votes r)\<bar>) (gm_group_of t only_poste (d, b, office))) \<le> 2 ^ 53 \<longrightarrow>
               info_total_valid info =
                 sum_list (map (\<lambda>r. py_int (fillna 0 (gm_Votes r))) (gm_group_of t only_poste (d, b, office))))) \<and>
         (\<not> gm_has_TotalRejectedVotes t \<longrightarrow> info_rejected info = 0) \<and>
         (\<not> gm_has_TotalVotes t \<longrightarrow> info_total info = info_total_valid info + info_rejected info))) \<and>
   (generate_map_entry float_str series_sum t only_poste (d, b) pkey = Some info' \<longrightarrow>
      (\<exists>p. pkey = pkey_of float_str p \<and> gm_group_of t only_poste (d, b, p) \<noteq> [] \<and>
         (\<not> gm_has_TotalValidVotes t \<longrightarrow>
            info_total_valid info' =
              py_int (series_sum (map (\<lambda>r. fillna 0 (gm_Votes r)) (gm_group_of t only_poste (d, b, p))))) \<and>
         (\<not> gm_has_TotalRejectedVotes t \<longrightarrow> info_rejected info' = 0) \<and>
         (\<not> gm_has_TotalVotes t \<longrightarrow> info_total info' = info_total_valid info' + info_rejected info')))"
proof -
  have fields:
    "(\<not> gm_has_TotalValidVotes t \<longrightarrow>
        info_total_valid i = py_int (series_sum (map (\<lambda>r. fillna 0 (gm_Votes r)) g)) \<and>
        (sums_counts series_sum \<and> (\<forall>r\<in>set g. \<exists>i. gm_Votes r = Some (of_int i)) \<and>
         sum_list (map (\<lambda>r. \<bar>fillna 0 (gm_Votes r)\<bar>) g) \<le> 2 ^ 53 \<longrightarrow>
           info_total_valid i = sum_list (map (\<lambda>r. py_int (fillna 0 (gm_Votes r))) g))) \<and>
     (\<not> gm_has_TotalRejectedVotes t \<longrightarrow> info_rejected i = 0) \<and>
     (\<not> gm_has_TotalVotes t \<longrightarrow> info_total i = info_total_valid i + info_rejected i)"
    if gi: "group_info series_sum t g = Inr i" for g i
  proof -
    from gi obtain rows where rows: "traverse (result_row_of (info_total_valid i)) g = Inr rows"
      by (rule group_info_Inr)
    have some: "\<forall>r\<in>set g. gm_Votes r \<noteq> None"
      using traverse_result_rows_all_votes[OF rows] by blast
    from gi have tv: "\<not> gm_has_TotalValidVotes t \<longrightarrow> info_total_valid i = py_int (votes_sum series_sum g)"
      and rj: "\<not> gm_has_TotalRejectedVotes t \<longrightarrow> info_rejected i = 0"
      and tl: "\<not> gm_has_TotalVotes t \<longrightarrow> info_total i = info_total_valid i + info_rejected i"
      by (auto elim!: group_info_Inr split: if_splits)
    from tv have 1: "\<not> gm_has_TotalValidVotes t \<longrightarrow>
        info_total_valid i = py_int (series_sum (map (\<lambda>r. fillna 0 (gm_Votes r)) g))"
      by (simp add: votes_sum_general[OF some])
    from tv have 2: "\<not> gm_has_TotalValidVotes t \<longrightarrow>
        (sums_counts series_sum \<and> (\<forall>r\<in>set g. \<exists>i. gm_Votes r = Some (of_int i)) \<and>
         sum_list (map (\<lambda>r. \<bar>fillna 0 (gm_Votes r)\<bar>) g) \<le> 2 ^ 53 \<longrightarrow>
           info_total_valid i = sum_list (map (\<lambda>r. py_int (fillna 0 (gm_Votes r))) g))"
      using votes_sum_exact[of series_sum g] by auto
    from 1 2 rj tl show ?thesis by blast
  qed
  have c1: "generate_map_build_results_index float_str series_sum t only_poste = Inr results \<and>
    gm_group_of t only_poste (d, b, office) \<noteq> [] \<and>
    (\<forall>p'. gm_group_of t only_poste (d, b, p') \<noteq> [] \<and>
          pkey_of float_str p' = pkey_of float_str office \<longrightarrow> p' = office) \<longrightarrow>
      (\<exists>info. lookup2 results (d, b) (pkey_of float_str office) = Some info \<and>
         (\<not> gm_has_TotalValidVotes t \<longrightarrow>
            info_total_valid info =
              py_int (series_sum (map (\<lambda>r. fillna 0 (gm_Votes r)) (gm_group_of t only_poste (d, b, office)))) \<and>
            (sums_counts series_sum \<and>
             (\<forall>r\<in>set (gm_group_of t only_poste (d, b, office)). \<exists>i. gm_Votes r = Some (of_int i)) \<and>
             sum_list (map (\<lambda>r. \<bar>fillna 0 (gm_Votes r)\<bar>) (gm_group_of t only_poste (d, b, office))) \<le> 2 ^ 53 \<longrightarrow>
               info_total_valid info =
                 sum_list (map (\<lambda>r. py_int (fillna 0 (gm_Votes r))) (gm_group_of t only_poste (d, b, office))))) \<and>
         (\<not> gm_has_TotalRejectedVotes t \<longrightarrow> info_rejected info = 0) \<and>
         (\<not> gm_has_TotalVotes t \<longrightarrow> info_total info = info_total_valid info + info_rejected info))"
  proof (intro impI)
    assume h: "generate_map_build_results_index float_str series_sum t only_poste = Inr results \<and>
      gm_group_of t only_poste (d, b, office) \<noteq> [] \<and>
      (\<forall>p'. gm_group_of t only_poste (d, b, p') \<noteq> [] \<and>
          pkey_of float_str p' = pkey_of float_str office \<longrightarrow> p' = office)"
    then have 1: "generate_map_build_results_index float_str series_sum t only_poste = Inr results"
      and 2: "gm_group_of t only_poste (d, b, office) \<noteq> []"
      and 3: "\<forall>p'. gm_group_of t only_poste (d, b, p') \<noteq> [] \<and>
          pkey_of float_str p' = pkey_of float_str office \<longrightarrow> p' = office" by simp_all
    from generate_map_lookup_group[OF 1 2 3] obtain info where
      i: "lookup2 results (d, b) (pkey_of float_str office) = Some info"
        "group_info series_sum t (gm_group_of t only_poste (d, b, office)) = Inr info" by blast
    from i(1) fields[OF i(2)]
    show "\<exists>info. lookup2 results (d, b) (pkey_of float_str office) = Some info \<and>
         (\<not> gm_has_TotalValidVotes t \<longrightarrow>
            info_total_valid info =
              py_int (series_sum (map (\<lambda>r. fillna 0 (gm_Votes r)) (gm_group_of t only_poste (d, b, office)))) \<and>
            (sums_counts series_sum \<and>
             (\<forall>r\<in>set (gm_group_of t only_poste (d, b, office)). \<exists>i. gm_Votes r = Some (of_int i)) \<and>
             sum_list (map (\<lambda>r. \<bar>fillna 0 (gm_Votes r)\<bar>) (gm_group_of t only_poste (d, b, office))) \<le> 2 ^ 53 \<longrightarrow>
               info_total_valid info =
                 sum_list (map (\<lambda>r. py_int (fillna 0 (gm_Votes r))) (gm_group_of t only_poste (d, b, office))))) \<and>
         (\<not> gm_has_TotalRejectedVotes t \<longrightarrow> info_rejected info = 0) \<and>
         (\<not> gm_has_TotalVotes t \<longrightarrow> info_total info = info_total_valid info + info_rejected info)"
      by (intro exI[of _ info] conjI) blast+
  qed
  have c2: "generate_map_entry float_str series_sum t only_poste (d, b) pkey = Some info' \<longrightarrow>
      (\<exists>p. pkey = pkey_of float_str p \<and> gm_group_of t only_poste (d, b, p) \<noteq> [] \<and>
         (\<not> gm_has_TotalValidVotes t \<longrightarrow>
            info_total_valid info' =
              py_int (series_sum (map (\<lambda>r. fillna 0 (gm_Votes r)) (gm_group_of t only_poste (d, b, p))))) \<and>
         (\<not> gm_has_TotalRejectedVotes t \<longrightarrow> info_rejected info' = 0) \<and>
         (\<not> gm_has_TotalVotes t \<longrightarrow> info_total info' = info_total_valid info' + info_rejected info'))"
  proof (intro impI)
    assume "generate_map_entry float_str series_sum t only_poste (d, b) pkey = Some info'"
    from generate_map_entry_Some[OF this] obtain p where
      p: "pkey = pkey_of float_str p" "gm_group_of t only_poste (d, b, p) \<noteq> []"
         "group_info series_sum t (gm_group_of t only_poste (d, b, p)) = Inr info'" by blast
    from p(1,2) fields[OF p(3)]
    show "\<exists>p. pkey = pkey_of float_str p \<and> gm_group_of t only_poste (d, b, p) \<noteq> [] \<and>
         (\<not> gm_has_TotalValidVotes t \<longrightarrow>
            info_total_valid info' =
              py_int (series_sum (map (\<lambda>r. fillna 0 (gm_Votes r)) (gm_group_of t only_poste (d, b, p))))) \<and>
         (\<not> gm_has_TotalRejectedVotes t \<longrightarrow> info_rejected info' = 0) \<and>
         (\<not> gm_has_TotalVotes t \<longrightarrow> info_total info' = info_total_valid info' + info_rejected info')"
      by (intro exI[of _ p] conjI) blast+
  qed
  show ?thesis by (intro conjI c1 c2)
qed

theorem missing_total_columns_are_synthesized_witness:
  "gm_has_TotalValidVotes three_gm = False \<and> gm_has_TotalRejectedVotes three_gm = False \<and>
   gm_has_TotalVotes three_gm = False \<and> sums_counts sum_list \<and>
   map (\<lambda>r. fillna 0 (gm_Votes r)) (gm_group_of three_gm [] (''11'', ''037'', Some 0)) = [20, 30, 7] \<and>
   map_option (\<lambda>i. (info_total_valid i, info_rejected i, info_total i))
     (generate_map_entry no_float_str sum_list three_gm [] (''11'', ''037'') ''0'') = Some (57, 0, 57)"
proof -
  note T = missing_total_columns_are_synthesized
  have f: "gm_has_TotalValidVotes three_gm = False" "gm_has_TotalRejectedVotes three_gm = False"
    "gm_has_TotalVotes three_gm = False"
    by (simp_all add: three_gm_def gm_file_def)
  have sc: "sums_counts sum_list" by (rule sums_counts_sum_list)
  obtain results where r: "generate_map_build_results_index no_float_str sum_list three_gm [] = Inr results"
    by (simp add: three_gm_def generate_map_eval)
  have g: "map (\<lambda>r. fillna 0 (gm_Votes r)) (gm_group_of three_gm [] (''11'', ''037'', Some 0)) = [20, 30, 7]"
    by (simp add: three_gm_def generate_map_eval)
  have gv: "map gm_Votes (gm_group_of three_gm [] (''11'', ''037'', Some 0)) = [Some 20, Some 30, Some 7]"
    by (simp add: three_gm_def generate_map_eval)
  have ne: "gm_group_of three_gm [] (''11'', ''037'', Some 0) \<noteq> []" using g by auto
  have groups: "p = Some 0" if "gm_group_of three_gm [] (''11'', ''037'', p) \<noteq> []" for p
    using that by (auto simp add: three_gm_def generate_map_eval split: if_splits)
  then have noclash: "\<forall>p'. gm_group_of three_gm [] (''11'', ''037'', p') \<noteq> [] \<and>
          pkey_of no_float_str p' = pkey_of no_float_str (Some 0) \<longrightarrow> p' = Some 0" by blast
  have k0: "pkey_of no_float_str (Some 0) = ''0''"
    by (simp add: pkey_of_def strings_eval numbers_eval)
  have ints: "\<forall>r\<in>set (gm_group_of three_gm [] (''11'', ''037'', Some 0)). \<exists>i. gm_Votes r = Some (of_int i)"
  proof
    fix r assume "r \<in> set (gm_group_of three_gm [] (''11'', ''037'', Some 0))"
    then have "gm_Votes r \<in> set (map gm_Votes (gm_group_of three_gm [] (''11'', ''037'', Some 0)))" by simp
    then have "gm_Votes r = Some (of_int 20) \<or> gm_Votes r = Some (of_int 30) \<or> gm_Votes r = Some (of_int 7)"
      unfolding gv by auto
    then show "\<exists>i. gm_Votes r = Some (of_int i)" by blast
  qed
  have bound: "sum_list (map (\<lambda>r. \<bar>fillna 0 (gm_Votes r)\<bar>) (gm_group_of three_gm [] (''11'', ''037'', Some 0))) \<le> 2 ^ 53"
  proof -
    have "map (\<lambda>r. \<bar>fillna 0 (gm_Votes r)\<bar>) (gm_group_of three_gm [] (''11'', ''037'', Some 0)) =
        map abs (map (\<lambda>r. fillna 0 (gm_Votes r)) (gm_group_of three_gm [] (''11'', ''037'', Some 0)))"
      by (simp add: comp_def)
    then show ?thesis unfolding g by simp
  qed
  let ?g = "gm_group_of three_gm [] (''11'', ''037'', Some 0)"
  from T[THEN conjunct1, THEN mp, OF conjI[OF r conjI[OF ne noclash]]]
  obtain info where i: "lookup2 results (''11'', ''037'') (pkey_of no_float_str (Some 0)) = Some info"
    and c: "\<not> gm_has_TotalValidVotes three_gm \<longrightarrow>
            info_total_valid info = py_int (sum_list (map (\<lambda>r. fillna 0 (gm_Votes r)) ?g)) \<and>
            (sums_counts sum_list \<and> (\<forall>r\<in>set ?g. \<exists>i. gm_Votes r = Some (of_int i)) \<and>
             sum_list (map (\<lambda>r. \<bar>fillna 0 (gm_Votes r)\<bar>) ?g) \<le> 2 ^ 53 \<longrightarrow>
               info_total_valid info = sum_list (map (\<lambda>r. py_int (fillna 0 (gm_Votes r))) ?g))"
      "\<not> gm_has_TotalRejectedVotes three_gm \<longrightarrow> info_rejected info = 0"
      "\<not> gm_has_TotalVotes three_gm \<longrightarrow> info_total info = info_total_valid info + info_rejected info"
    by blast
  from c(1) f(1) have tv: "sums_counts sum_list \<and> (\<forall>r\<in>set ?g. \<exists>i. gm_Votes r = Some (of_int i)) \<and>
             sum_list (map (\<lambda>r. \<bar>fillna 0 (gm_Votes r)\<bar>) ?g) \<le> 2 ^ 53 \<longrightarrow>
               info_total_valid info = sum_list (map (\<lambda>r. py_int (fillna 0 (gm_Votes r))) ?g)"
    by blast
  from c(2,3) f(2,3) have rj: "info_rejected info = 0"
    and tl: "info_total info = info_total_valid info + info_rejected info" by blast+
  from tv[THEN mp, OF conjI[OF sc conjI[OF ints bound]]] have "info_total_valid info =
      sum_list (map py_int (map (\<lambda>r. fillna 0 (gm_Votes r)) (gm_group_of three_gm [] (''11'', ''037'', Some 0))))"
    by (simp add: comp_def)
  then have v: "info_total_valid info = 57" unfolding g by (simp add: numbers_eval)
  from i r k0 have e: "generate_map_entry no_float_str sum_list three_gm [] (''11'', ''037'') ''0'' = Some info"
    by (simp add: generate_map_entry_def)
  from T[THEN conjunct2, rule_format, OF e] f
  have "info_rejected info = 0" by auto
  with f sc g e v rj tl show ?thesis by simp
qed

text \<open>
  C3, as amended. In generate\_map.py the rows of every entry are in descending order of
  votes and rows of equal votes keep the order of the source (Python's stable sort). In
  genmap3.py the breakdown is not sorted: it lists the rows of the group in the order of
  the source. The claim as stated, that every breakdown is sorted, fails on genmap3.py:
  the counterexample is a group whose rows come with 20 and then 30 votes.
\<close>

theorem breakdown_order:
  "(generate_map_entry float_str series_sum u only_poste (d, b) pkey = Some info \<longrightarrow>
      sorted_wrt (\<lambda>x y. row_votes y \<le> row_votes x) (info_rows info) \<and>
      (\<exists>p rows.
          traverse (result_row_of (info_total_valid info)) (gm_group_of u only_poste (d, b, p)) = Inr rows \<and>
          (\<forall>v. filter (\<lambda>x. row_votes x = v) (info_rows info) = filter (\<lambda>x. row_votes x = v) rows))) \<and>
   (genmap3_entry float_str sort_values t poste sec_code = Some a \<longrightarrow>
      map votes (breakdown a) = map (\<lambda>r. py_int (VotesNum r)) (group_of float_str t poste sec_code) \<and>
      map candidat (breakdown a) =
        map (\<lambda>r. normalize_str (CandidatTxt r)) (group_of float_str t poste sec_code))"
proof (intro conjI impI)
  assume e: "generate_map_entry float_str series_sum u only_poste (d, b) pkey = Some info"
  from generate_map_entry_Some[OF e] obtain p where
    p: "group_info series_sum u (gm_group_of u only_poste (d, b, p)) = Inr info" by blast
  from p obtain rows where
    rows: "traverse (result_row_of (info_total_valid info)) (gm_group_of u only_poste (d, b, p)) = Inr rows"
      "info_rows info = stable_sort_desc row_votes rows"
    by (rule group_info_Inr)
  from rows(2) show "sorted_wrt (\<lambda>x y. row_votes y \<le> row_votes x) (info_rows info)"
    by (simp add: sorted_stable_sort_desc)
  from rows show "\<exists>p rows.
          traverse (result_row_of (info_total_valid info)) (gm_group_of u only_poste (d, b, p)) = Inr rows \<and>
          (\<forall>v. filter (\<lambda>x. row_votes x = v) (info_rows info) = filter (\<lambda>x. row_votes x = v) rows)"
    by (auto simp: stable_sort_desc_stable)
next
  assume e: "genmap3_entry float_str sort_values t poste sec_code = Some a"
  from genmap3_entry_fields(4)[OF e]
  show "map votes (breakdown a) = map (\<lambda>r. py_int (VotesNum r)) (group_of float_str t poste sec_code)"
    "map candidat (breakdown a) =
       map (\<lambda>r. normalize_str (CandidatTxt r)) (group_of float_str t poste sec_code)"
    by (simp_all add: breakdown_of_def)
qed

theorem breakdown_order_witness:
  "map_option (\<lambda>i. map row_nom (info_rows i))
     (generate_map_entry no_float_str sum_list tied_gm [] (''11'', ''037'') ''0'') = Some [''A'', ''B'', ''C''] \<and>
   map_option (\<lambda>i. sorted_wrt (\<lambda>x y. row_votes y \<le> row_votes x) (info_rows i))
     (generate_map_entry no_float_str sum_list tied_gm [] (''11'', ''037'') ''0'') = Some True \<and>
   map_option (\<lambda>a. map votes (breakdown a))
     (genmap3_entry no_float_str sort_values_stable example_csv ''0'' ''011-037'') = Some [20, 30]"
proof -
  obtain info where i: "generate_map_entry no_float_str sum_list tied_gm [] (''11'', ''037'') ''0'' = Some info"
    by (simp add: tied_gm_def generate_map_eval)
  from breakdown_order[THEN conjunct1, rule_format, OF i]
  have s: "sorted_wrt (\<lambda>x y. row_votes y \<le> row_votes x) (info_rows info)" by blast
  have n: "map_option (\<lambda>i. map row_nom (info_rows i))
     (generate_map_entry no_float_str sum_list tied_gm [] (''11'', ''037'') ''0'') = Some [''A'', ''B'', ''C'']"
    by (simp add: tied_gm_def generate_map_eval)
  obtain a where a: "genmap3_entry no_float_str sort_values_stable example_csv ''0'' ''011-037'' = Some a"
    by (simp add: example_csv_def genmap3_eval)
  have g: "map (\<lambda>r. py_int (VotesNum r)) (group_of no_float_str example_csv ''0'' ''011-037'') = [20, 30]"
    by (simp add: example_csv_def genmap3_eval)
  from breakdown_order[THEN conjunct2, rule_format, OF a] g
  have "map votes (breakdown a) = [20, 30]" by simp
  with s n i a show ?thesis by simp
qed

theorem breakdown_order_counterexample:
  "map_option (\<lambda>a. map votes (breakdown a))
     (genmap3_entry no_float_str sort_values_stable example_csv ''0'' ''011-037'') = Some [20, 30] \<and>
   map_option (\<lambda>a. sorted_wrt (\<lambda>x y. votes y \<le> votes x) (breakdown a))
     (genmap3_entry no_float_str sort_values_stable example_csv ''0'' ''011-037'') = Some False"
  by (simp add: example_csv_def genmap3_eval)




text \<open>
  C4, as amended. In genmap3.py the base of the percentages of a group is the total of valid
  votes when it is there and positive, else the total of votes when it is there and
  positive, else there is none and every \<^verbatim>\<open>pct\<close> is None. The percentage is the float64
  \<^verbatim>\<open>votes * 100.0 / base\<close>, not rounded: with 100 valid votes a row of 25 votes has pct
  25.0, with 0 valid votes and 50 votes a row of 10 votes has pct 20.0, without either
  total the pct is None, and 20 votes of 60 give 33.333333333333336. In generate\_map.py
  the base is \<^verbatim>\<open>total_valid\<close> alone: the pct is \<^verbatim>\<open>round(100.0 * votes / total_valid, 2)\<close>
  in float64 when it is positive and 0.0 otherwise, with no fallback on the total of votes;
  107 votes of 4000 give 2.67 (the quotient in float64 is just below 2.675), 30 of 70 give
  42.86 and 10 of 70 give 14.29. The claim as stated fails on generate\_map.py: with
  TotalValidVotes 0 and TotalVotes 50 a row of 10 votes gets pct 0.0, not 20.
\<close>

theorem percentage_denominator:
  "(genmap3_entry float_str sort_values t poste sec_code = Some a \<longrightarrow>
      (\<exists>tv tt.
          tv = group_total (has_TotalValidVotes t) TotalValidNum (group_of float_str t poste sec_code) \<and>
          tt = group_total (has_TotalVotes t) TotalVotesNum (group_of float_str t poste sec_code) \<and>
          total_for_pct tv tt = (if positive tv then tv else if positive tt then tt else None) \<and>
          map pct (breakdown a) =
            map (\<lambda>r. map_option (percent (py_int (VotesNum r))) (total_for_pct tv tt))
              (group_of float_str t poste sec_code))) \<and>
   (generate_map_entry float_str series_sum u only_poste (d, b) pkey = Some info \<longrightarrow>
      (\<forall>y\<in>set (info_rows info).
          row_pct y =
            (if 0 < info_total_valid info
             then py_round2 (fdiv_pos (fmul_pos (float_of_int (row_votes y)) 100)
                               (nearest_double (of_int (info_total_valid info))))
             else Finite 0))) \<and>
   percent 25 100 = Finite 25 \<and> percent 10 50 = Finite 20 \<and>
   percent 20 60 = Finite (4691249611844267 / 140737488355328) \<and>
   map_option (\<lambda>a. map pct (breakdown a))
     (genmap3_entry float_str sort_values_stable
        (csv_file True [csv_line ''A'' (Num 25) (Num 100) NA (Num 120)]) ''0'' ''011-037'')
     = Some [Some (Finite 25)] \<and>
   map_option (\<lambda>a. map pct (breakdown a))
     (genmap3_entry float_str sort_values_stable
        (csv_file True [csv_line ''A'' (Num 10) (Num 0) NA (Num 50)]) ''0'' ''011-037'')
     = Some [Some (Finite 20)] \<and>
   map_option (\<lambda>a. map pct (breakdown a))
     (genmap3_entry float_str sort_values_stable
        (csv_file False [csv_line ''A'' (Num 10) NA NA NA]) ''0'' ''011-037'')
     = Some [None] \<and>
   map_option (\<lambda>a. map pct (breakdown a))
     (genmap3_entry float_str sort_values_stable thirds_csv ''0'' ''011-037'')
     = Some [Some (Finite (4691249611844267 / 140737488355328)),
             Some (Finite (4691249611844267 / 70368744177664))] \<and>
   map_option (\<lambda>i. map row_pct (info_rows i))
     (generate_map_entry float_str series_sum
        (gm_file True [gm_line 0 ''A'' (Some 25) (Some 100) (Some 0) (Some 100)]) []
        (''11'', ''037'') ''0'') = Some [Finite 25] \<and>
   map_option (\<lambda>i. map row_pct (info_rows i))
     (generate_map_entry float_str series_sum rounding_gm [] (''11'', ''037'') ''0'')
     = Some [Finite (1503076375634903 / 562949953421312)] \<and>
   round_to_double (267 / 100) = Finite (1503076375634903 / 562949953421312) \<and>
   map_option (\<lambda>i. map row_pct (info_rows i))
     (generate_map_entry float_str series_sum tied_gm [] (''11'', ''037'') ''0'')
     = Some [Finite (3016004375454679 / 70368744177664), Finite (3016004375454679 / 70368744177664),
             Finite (2011138708597637 / 140737488355328)]"
proof -
  have g3: "genmap3_entry float_str sort_values t poste sec_code = Some a \<longrightarrow>
      (\<exists>tv tt.
          tv = group_total (has_TotalValidVotes t) TotalValidNum (group_of float_str t poste sec_code) \<and>
          tt = group_total (has_TotalVotes t) TotalVotesNum (group_of float_str t poste sec_code) \<and>
          total_for_pct tv tt = (if positive tv then tv else if positive tt then tt else None) \<and>
          map pct (breakdown a) =
            map (\<lambda>r. map_option (percent (py_int (VotesNum r))) (total_for_pct tv tt))
              (group_of float_str t poste sec_code))"
  proof
    assume e: "genmap3_entry float_str sort_values t poste sec_code = Some a"
    let ?tv = "group_total (has_TotalValidVotes t) TotalValidNum (group_of float_str t poste sec_code)"
    let ?tt = "group_total (has_TotalVotes t) TotalVotesNum (group_of float_str t poste sec_code)"
    have 1: "total_for_pct ?tv ?tt = (if positive ?tv then ?tv else if positive ?tt then ?tt else None)"
      by (simp add: total_for_pct_def)
    have 2: "map pct (breakdown a) =
            map (\<lambda>r. map_option (percent (py_int (VotesNum r))) (total_for_pct ?tv ?tt))
              (group_of float_str t poste sec_code)"
      unfolding genmap3_entry_fields(4)[OF e] map_map comp_def breakdown_of_pct ..
    from 1 2 show "\<exists>tv tt.
          tv = group_total (has_TotalValidVotes t) TotalValidNum (group_of float_str t poste sec_code) \<and>
          tt = group_total (has_TotalVotes t) TotalVotesNum (group_of float_str t poste sec_code) \<and>
          total_for_pct tv tt = (if positive tv then tv else if positive tt then tt else None) \<and>
          map pct (breakdown a) =
            map (\<lambda>r. map_option (percent (py_int (VotesNum r))) (total_for_pct tv tt))
              (group_of float_str t poste sec_code)" by blast
  qed
  have gm: "generate_map_entry float_str series_sum u only_poste (d, b) pkey = Some info \<longrightarrow>
      (\<forall>y\<in>set (info_rows info).
          row_pct y =
            (if 0 < info_total_valid info
             then py_round2 (fdiv_pos (fmul_pos (float_of_int (row_votes y)) 100)
                               (nearest_double (of_int (info_total_valid info))))
             else Finite 0))"
    using generate_map_entry_pct by blast
  have p1: "percent 25 100 = Finite 25" by (simp add: float_eval)
  have p2: "percent 10 50 = Finite 20" by (simp add: float_eval)
  have p3: "percent 20 60 = Finite (4691249611844267 / 140737488355328)" by (simp add: float_eval)
  have p4: "percent 40 60 = Finite (4691249611844267 / 70368744177664)" by (simp add: float_eval)
  have c1: "map_option (\<lambda>a. map pct (breakdown a))
     (genmap3_entry float_str sort_values_stable
        (csv_file True [csv_line ''A'' (Num 25) (Num 100) NA (Num 120)]) ''0'' ''011-037'')
     = Some [Some (Finite 25)]"
    by (simp add: genmap3_eval p1)
  have c2: "map_option (\<lambda>a. map pct (breakdown a))
     (genmap3_entry float_str sort_values_stable
        (csv_file True [csv_line ''A'' (Num 10) (Num 0) NA (Num 50)]) ''0'' ''011-037'')
     = Some [Some (Finite 20)]"
    by (simp add: genmap3_eval p2)
  have c3: "map_option (\<lambda>a. map pct (breakdown a))
     (genmap3_entry float_str sort_values_stable
        (csv_file False [csv_line ''A'' (Num 10) NA NA NA]) ''0'' ''011-037'')
     = Some [None]"
    by (simp add: genmap3_eval)
  have c4: "map_option (\<lambda>a. map pct (breakdown a))
     (genmap3_entry float_str sort_values_stable thirds_csv ''0'' ''011-037'')
     = Some [Some (Finite (4691249611844267 / 140737488355328)),
             Some (Finite (4691249611844267 / 70368744177664))]"
    by (simp add: thirds_csv_def genmap3_eval p3 p4)
  have c5: "map_option (\<lambda>i. map row_pct (info_rows i))
     (generate_map_entry float_str series_sum
        (gm_file True [gm_line 0 ''A'' (Some 25) (Some 100) (Some 0) (Some 100)]) []
        (''11'', ''037'') ''0'') = Some [Finite 25]"
    by (simp add: generate_map_eval float_eval)
  have c6: "map_option (\<lambda>i. map row_pct (info_rows i))
     (generate_map_entry float_str series_sum rounding_gm [] (''11'', ''037'') ''0'')
     = Some [Finite (1503076375634903 / 562949953421312)]"
    by (simp add: rounding_gm_def generate_map_eval float_eval)
  have c7: "round_to_double (267 / 100) = Finite (1503076375634903 / 562949953421312)"
    by (simp add: float_eval)
  have c8: "map_option (\<lambda>i. map row_pct (info_rows i))
     (generate_map_entry float_str series_sum tied_gm [] (''11'', ''037'') ''0'')
     = Some [Finite (3016004375454679 / 70368744177664), Finite (3016004375454679 / 70368744177664),
             Finite (2011138708597637 / 140737488355328)]"
    by (simp add: tied_gm_def generate_map_eval float_eval)
  show ?thesis by (intro conjI g3 gm p1 p2 p3 c1 c2 c3 c4 c5 c6 c7 c8)
qed

theorem percentage_denominator_witness:
  "map_option (\<lambda>a. map pct (breakdown a))
     (genmap3_entry no_float_str sort_values_stable example_csv ''0'' ''011-037'')
     = Some [Some (Finite 40), Some (Finite 60)] \<and>
   map_option (\<lambda>i. map row_pct (info_rows i))
     (generate_map_entry no_float_str sum_list example_gm [] (''11'', ''037'') ''0'')
     = Some [Finite 60, Finite 40]"
proof -
  obtain a where a: "genmap3_entry no_float_str sort_values_stable example_csv ''0'' ''011-037'' = Some a"
    by (simp add: example_csv_def genmap3_eval)
  have grp: "map (\<lambda>r. py_int (VotesNum r)) (group_of no_float_str example_csv ''0'' ''011-037'') = [20, 30]"
    by (simp add: example_csv_def genmap3_eval)
  have base: "total_for_pct
       (group_total (has_TotalValidVotes example_csv) TotalValidNum (group_of no_float_str example_csv ''0'' ''011-037''))
       (group_total (has_TotalVotes example_csv) TotalVotesNum (group_of no_float_str example_csv ''0'' ''011-037''))
     = Some 50"
    by (simp add: example_csv_def genmap3_eval)
  from percentage_denominator[THEN conjunct1, rule_format, OF a] base
  have "map pct (breakdown a) =
      map (\<lambda>v. Some (percent v 50)) (map (\<lambda>r. py_int (VotesNum r)) (group_of no_float_str example_csv ''0'' ''011-037''))"
    by (auto simp: comp_def)
  then have c1: "map pct (breakdown a) = [Some (Finite 40), Some (Finite 60)]"
    unfolding grp by (simp add: float_eval)
  obtain y1 y2 tv rj tl where i: "generate_map_entry no_float_str sum_list example_gm [] (''11'', ''037'') ''0'' =
      Some \<lparr>info_total_valid = tv, info_rejected = rj, info_total = tl, info_rows = [y1, y2]\<rparr>"
    and v: "tv = 50" "row_votes y1 = 30" "row_votes y2 = 20"
    by (simp add: example_gm_def generate_map_eval)
  from percentage_denominator[THEN conjunct2, THEN conjunct1, rule_format, OF i] v
  have "row_pct y1 = py_round2 (fdiv_pos (fmul_pos (float_of_int 30) 100) (nearest_double 50))"
    "row_pct y2 = py_round2 (fdiv_pos (fmul_pos (float_of_int 20) 100) (nearest_double 50))"
    by simp_all
  then have c2: "row_pct y1 = Finite 60" "row_pct y2 = Finite 40"
    by (simp_all add: float_eval)
  from a c1 i c2 show ?thesis by simp
qed

theorem percentage_denominator_counterexample:
  "map_option (\<lambda>i. (info_total_valid i, info_total i, map row_votes (info_rows i), map row_pct (info_rows i)))
     (generate_map_entry no_float_str sum_list zero_valid_gm [] (''11'', ''037'') ''0'')
     = Some (0, 50, [10], [Finite 0])"
  by (simp add: zero_valid_gm_def generate_map_eval py_round2_zero)

text \<open>
  C5, as amended. No function of the repository parses an office code and renders it in
  one canonical form.

  genmap3.py (as gen\_mairie.py) takes the text pandas gives for the cell and replaces
  every comma by a dot, character by character, nothing else. In a column read as text
  the cells 1,10 and 1.10 both give 1.10, but 0 stays 0, 0.0 stays 0.0 and 0,00 gives
  0.00: three keys for the office 0. In a column read as integers the key is the decimal
  text of the integer, and in a column read as floats it is Python's text of the float
  (1.1 for a cell 1.10, 0.0 for a cell 0.0), never a rendering with two decimals.

  generate\_map.py reads the code as a float: an integral value gives the text of the
  integer, without a fractional part (0 and 1); any other value gives Python's text of
  the float, not a rendering with two decimals; a missing value gives nan.

  The claim as stated fails on genmap3.py, where the texts 0, 0.0 and 0,00 are normalised
  to three different keys, none but the first being 0.
\<close>

theorem office_code_normalization:
  "poste_norm [] = [] \<and>
   poste_norm (c # s) = (if c = CHR '','' then CHR ''.'' else c) # poste_norm s \<and>
   poste_key float_str (TextCell s) = poste_norm s \<and>
   poste_key float_str (IntCell i) = show_int i \<and>
   poste_key float_str (FloatCell q) = poste_norm (float_str q) \<and>
   poste_key float_str NaNCell = ''nan'' \<and>
   poste_key float_str (TextCell ''1,10'') = ''1.10'' \<and>
   poste_key float_str (TextCell ''1.10'') = ''1.10'' \<and>
   poste_key float_str (TextCell ''0'') = ''0'' \<and>
   poste_key float_str (TextCell ''0.0'') = ''0.0'' \<and>
   poste_key float_str (TextCell ''0,00'') = ''0.00'' \<and>
   poste_key float_str (IntCell 0) = ''0'' \<and>
   poste_key float_str (IntCell 1) = ''1'' \<and>
   pkey_of float_str (Some q) = (if of_int \<lfloor>q\<rfloor> = q then show_int \<lfloor>q\<rfloor> else float_str q) \<and>
   pkey_of float_str None = ''nan'' \<and>
   CHR ''.'' \<notin> set (pkey_of float_str (Some (of_int i))) \<and>
   pkey_of float_str (Some 0) = ''0'' \<and> pkey_of float_str (Some 1) = ''1'' \<and>
   pkey_of float_str (Some (11 / 10)) = float_str (11 / 10)"
proof -
  have 1: "poste_norm [] = []"
    "poste_norm (c # s) = (if c = CHR '','' then CHR ''.'' else c) # poste_norm s"
    by (simp_all add: poste_norm_def)
  have 2: "poste_key float_str (TextCell s) = poste_norm s"
    "poste_key float_str (FloatCell q) = poste_norm (float_str q)"
    "poste_key float_str NaNCell = ''nan''"
    by (simp_all add: poste_key_def astype_str_def poste_norm_def)
  have "CHR '','' \<notin> set (show_int i)"
    using show_nat_digits[of "nat i"] show_nat_digits[of "nat (- i)"]
    by (auto simp: show_int_def)
  then have "poste_norm (show_int i) = show_int i"
    unfolding poste_norm_def by (intro map_idI) auto
  then have 3: "poste_key float_str (IntCell i) = show_int i"
    by (simp add: poste_key_def astype_str_def)
  have 4: "poste_key float_str (TextCell ''1,10'') = ''1.10''"
    "poste_key float_str (TextCell ''1.10'') = ''1.10''"
    "poste_key float_str (TextCell ''0'') = ''0''"
    "poste_key float_str (TextCell ''0.0'') = ''0.0''"
    "poste_key float_str (TextCell ''0,00'') = ''0.00''"
    by (simp_all add: poste_key_def astype_str_def poste_norm_def)
  have 5: "poste_key float_str (IntCell 0) = ''0''" "poste_key float_str (IntCell 1) = ''1''"
    by (simp_all add: strings_eval)
  have 6: "pkey_of float_str (Some q) = (if of_int \<lfloor>q\<rfloor> = q then show_int \<lfloor>q\<rfloor> else float_str q)"
    by (simp add: pkey_of_def py_int_floor)
  have 7: "pkey_of float_str None = ''nan''" by (simp add: pkey_of_def)
  have 8: "CHR ''.'' \<notin> set (pkey_of float_str (Some (of_int i)))"
    by (simp add: pkey_of_integral show_int_no_point)
  have 9: "pkey_of float_str (Some 0) = ''0''" "pkey_of float_str (Some 1) = ''1''"
    by (simp_all add: pkey_of_def strings_eval numbers_eval)
  have 10: "pkey_of float_str (Some (11 / 10)) = float_str (11 / 10)"
    by (simp add: pkey_of_def floor_rat_numeral_div)
  show ?thesis by (intro conjI 1 2 3 4 5 6 7 8 9 10)
qed

theorem office_code_normalization_counterexample:
  "poste_key no_float_str (TextCell ''0'') = ''0'' \<and>
   poste_key no_float_str (TextCell ''0.0'') = ''0.0'' \<and>
   poste_key no_float_str (TextCell ''0,00'') = ''0.00'' \<and>
   poste_key no_float_str (TextCell ''0.0'') \<noteq> poste_key no_float_str (TextCell ''0'') \<and>
   poste_key no_float_str (TextCell ''0,00'') \<noteq> ''0''"
  by (simp add: poste_key_def astype_str_def poste_norm_def)

text \<open>
  C6. The claim that the aggregator never raises on a data-quality problem does not hold
  of the code. In genmap3.py an ElectoralDistrictID that is not a number is first coerced
  to NaN and then refused by \<^verbatim>\<open>astype(int)\<close>: the whole run stops with an error, whereas the
  same script replaces a non-numeric Votes by 0. In generate\_map.py a missing Votes makes
  \<^verbatim>\<open>int(r["Votes"])\<close> raise ValueError. The normalizers themselves never raise: on a
  missing or malformed value \<^verbatim>\<open>norm_digits\<close> gives the empty text and \<^verbatim>\<open>norm_bureau3\<close>
  gives 000.
\<close>

theorem malformed_identifier_raises:
  "genmap3_build_results_index float_str sort_values
     (csv_file True [csv_line ''A'' (Num 20) (Num 50) (Num 2) (Num 52),
                     (csv_line ''B'' (Num 30) (Num 50) (Num 2) (Num 52))\<lparr>ElectoralDistrictID := Txt ''abc''\<rparr>])
     = Inl IntCastingNaNError \<and>
   generate_map_build_results_index float_str series_sum
     (gm_file False [gm_line 0 ''A'' None None None None]) []
     = Inl ValueError \<and>
   norm_digits (str_district None) = [] \<and> norm_digits ''abc'' = [] \<and>
   norm_bureau3 (str_bureau None) = ''000'' \<and> norm_bureau3 ''abc'' = ''000''"
proof -
  have "genmap3_build_results_index float_str sort_values
     (csv_file True [csv_line ''A'' (Num 20) (Num 50) (Num 2) (Num 52),
                     (csv_line ''B'' (Num 30) (Num 50) (Num 2) (Num 52))\<lparr>ElectoralDistrictID := Txt ''abc''\<rparr>])
     = Inl IntCastingNaNError"
    by (simp add: genmap3_build_results_index_def prepare_def prepare_row_def csv_file_def
        csv_line_def)
  moreover have "generate_map_build_results_index float_str series_sum
      (gm_file False [gm_line 0 ''A'' None None None None]) [] = Inl ValueError"
    by (simp add: generate_map_eval)
  moreover have "norm_digits (str_district None) = []" "norm_digits ''abc'' = []"
    by (simp_all add: norm_digits_def str_district_def is_digit_def)
  moreover have "norm_bureau3 (str_bureau None) = ''000''" "norm_bureau3 ''abc'' = ''000''"
    by (simp_all add: norm_bureau3_def str_bureau_def is_digit_def zfill_def numeral_3_eq_3)
  ultimately show ?thesis by simp
qed

text \<open>
  C7, as amended. In the record genmap3.py writes for a section, \<^verbatim>\<open>total_valid\<close>,
  \<^verbatim>\<open>total_rejected\<close> and \<^verbatim>\<open>total_votes\<close> are None exactly when their column is not in
  the file or holds no number in the group, and the \<^verbatim>\<open>pct\<close> of a row is None exactly when
  there is no positive total to divide by: no number stands in for a missing one. The
  record of generate\_map.py has no null: a missing total column is replaced by a computed
  number (\<^verbatim>\<open>rejected\<close> by 0) and the pct is 0.0 when \<^verbatim>\<open>total_valid\<close> is not positive. The
  claim as stated fails on generate\_map.py: a file without the total columns gives
  \<^verbatim>\<open>rejected = 0\<close>, and a group with no valid votes gives \<^verbatim>\<open>pct = 0.0\<close>.
\<close>

theorem undefined_numbers_are_null:
  "(genmap3_entry float_str sort_values t poste sec_code = Some a \<longrightarrow>
      (total_valid a = None) =
        (\<not> has_TotalValidVotes t \<or>
         (\<forall>r\<in>set (group_of float_str t poste sec_code). TotalValidNum r = None)) \<and>
      (total_rejected a = None) =
        (\<not> has_TotalRejectedVotes t \<or>
         (\<forall>r\<in>set (group_of float_str t poste sec_code). TotalRejectedNum r = None)) \<and>
      (total_votes a = None) =
        (\<not> has_TotalVotes t \<or>
         (\<forall>r\<in>set (group_of float_str t poste sec_code). TotalVotesNum r = None)) \<and>
      (\<forall>row\<in>set (breakdown a).
          (pct row = None) =
            (\<not> positive (group_total (has_TotalValidVotes t) TotalValidNum
                           (group_of float_str t poste sec_code)) \<and>
             \<not> positive (group_total (has_TotalVotes t) TotalVotesNum
                           (group_of float_str t poste sec_code))))) \<and>
   (generate_map_entry float_str series_sum u only_poste (d, b) pkey = Some info \<longrightarrow>
      (\<not> gm_has_TotalRejectedVotes u \<longrightarrow> info_rejected info = 0) \<and>
      (\<not> 0 < info_total_valid info \<longrightarrow> (\<forall>y\<in>set (info_rows info). row_pct y = Finite 0)))"
proof -
  have g3: "(total_valid a = None) =
        (\<not> has_TotalValidVotes t \<or>
         (\<forall>r\<in>set (group_of float_str t poste sec_code). TotalValidNum r = None)) \<and>
      (total_rejected a = None) =
        (\<not> has_TotalRejectedVotes t \<or>
         (\<forall>r\<in>set (group_of float_str t poste sec_code). TotalRejectedNum r = None)) \<and>
      (total_votes a = None) =
        (\<not> has_TotalVotes t \<or>
         (\<forall>r\<in>set (group_of float_str t poste sec_code). TotalVotesNum r = None)) \<and>
      (\<forall>row\<in>set (breakdown a).
          (pct row = None) =
            (\<not> positive (group_total (has_TotalValidVotes t) TotalValidNum
                           (group_of float_str t poste sec_code)) \<and>
             \<not> positive (group_total (has_TotalVotes t) TotalVotesNum
                           (group_of float_str t poste sec_code))))"
    if e: "genmap3_entry float_str sort_values t poste sec_code = Some a"
  proof -
    note f = genmap3_entry_fields[OF e]
    have 1: "(total_valid a = None) =
        (\<not> has_TotalValidVotes t \<or>
         (\<forall>r\<in>set (group_of float_str t poste sec_code). TotalValidNum r = None))"
      unfolding f(1) by (simp add: group_total_None_iff)
    have 2: "(total_rejected a = None) =
        (\<not> has_TotalRejectedVotes t \<or>
         (\<forall>r\<in>set (group_of float_str t poste sec_code). TotalRejectedNum r = None))"
      unfolding f(2) by (simp add: group_total_None_iff)
    have 3: "(total_votes a = None) =
        (\<not> has_TotalVotes t \<or>
         (\<forall>r\<in>set (group_of float_str t poste sec_code). TotalVotesNum r = None))"
      unfolding f(3) by (simp add: group_total_None_iff)
    have 4: "\<forall>row\<in>set (breakdown a).
          (pct row = None) =
            (\<not> positive (group_total (has_TotalValidVotes t) TotalValidNum
                           (group_of float_str t poste sec_code)) \<and>
             \<not> positive (group_total (has_TotalVotes t) TotalVotesNum
                           (group_of float_str t poste sec_code)))"
      unfolding f(4) by (auto simp: breakdown_of_pct total_for_pct_None_iff)
    from 1 2 3 4 show ?thesis by blast
  qed
  have gm: "(\<not> gm_has_TotalRejectedVotes u \<longrightarrow> info_rejected info = 0) \<and>
      (\<not> 0 < info_total_valid info \<longrightarrow> (\<forall>y\<in>set (info_rows info). row_pct y = Finite 0))"
    if e: "generate_map_entry float_str series_sum u only_poste (d, b) pkey = Some info"
  proof -
    from generate_map_entry_Some[OF e] obtain p where
      "group_info series_sum u (gm_group_of u only_poste (d, b, p)) = Inr info" by blast
    then have 1: "\<not> gm_has_TotalRejectedVotes u \<longrightarrow> info_rejected info = 0"
      by (auto elim!: group_info_Inr split: if_splits)
    have 2: "\<not> 0 < info_total_valid info \<longrightarrow> (\<forall>y\<in>set (info_rows info). row_pct y = Finite 0)"
      using generate_map_entry_pct[OF e] by auto
    from 1 2 show ?thesis by blast
  qed
  from g3 gm show ?thesis by blast
qed

theorem undefined_numbers_are_null_witness:
  "map_option (\<lambda>a. (total_valid a, total_rejected a, total_votes a, map pct (breakdown a)))
     (genmap3_entry no_float_str sort_values_stable
        (csv_file True [csv_line ''A'' (Num 10) NA (Txt ''n/a'') (Num 0)]) ''0'' ''011-037'')
     = Some (None, None, Some 0, [None]) \<and>
   map_option (\<lambda>i. (info_rejected i, map row_pct (info_rows i)))
     (generate_map_entry no_float_str sum_list (gm_file False [gm_line 0 ''A'' (Some 0) None None None]) []
        (''11'', ''037'') ''0'') = Some (0, [Finite 0])"
proof -
  let ?t = "csv_file True [csv_line ''A'' (Num 10) NA (Txt ''n/a'') (Num 0)]"
  let ?u = "gm_file False [gm_line 0 ''A'' (Some 0) None None None]"
  obtain tv tr tt x where a: "genmap3_entry no_float_str sort_values_stable ?t ''0'' ''011-037'' =
      Some \<lparr>winner_candidate = ''A'', winner_party = ''A-party'', winner_votes = 10,
            total_valid = tv, total_rejected = tr, total_votes = tt, district_id = ''11'',
            bureau = ''37'', breakdown = [x]\<rparr>" and tt: "tt = Some 0"
    by (simp add: genmap3_eval)
  have g: "map TotalValidNum (group_of no_float_str ?t ''0'' ''011-037'') = [None]"
    "map TotalRejectedNum (group_of no_float_str ?t ''0'' ''011-037'') = [None]"
    "group_total (has_TotalValidVotes ?t) TotalValidNum (group_of no_float_str ?t ''0'' ''011-037'') = None"
    "group_total (has_TotalVotes ?t) TotalVotesNum (group_of no_float_str ?t ''0'' ''011-037'') = Some 0"
    by (simp_all add: genmap3_eval)
  have g': "\<forall>r\<in>set (group_of no_float_str ?t ''0'' ''011-037''). TotalValidNum r = None"
    "\<forall>r\<in>set (group_of no_float_str ?t ''0'' ''011-037''). TotalRejectedNum r = None"
    using g(1,2) by (auto simp: list_eq_iff_nth_eq in_set_conv_nth)
  from undefined_numbers_are_null[THEN conjunct1, rule_format, OF a] g' g(3,4)
  have c1: "tv = None" "tr = None" "pct x = None"
    by (simp_all add: positive_def)
  obtain rj y tv' tl where i: "generate_map_entry no_float_str sum_list ?u [] (''11'', ''037'') ''0'' =
      Some \<lparr>info_total_valid = tv', info_rejected = rj, info_total = tl, info_rows = [y]\<rparr>"
    and tv': "tv' = 0"
    by (simp add: generate_map_eval)
  have "\<not> gm_has_TotalRejectedVotes ?u" by (simp add: gm_file_def)
  with undefined_numbers_are_null[THEN conjunct2, rule_format, OF i] tv'
  have c2: "rj = 0" "row_pct y = Finite 0" by simp_all
  from a tt c1 i c2 show ?thesis by simp
qed

theorem undefined_numbers_are_null_counterexample:
  "gm_has_TotalValidVotes example_gm = False \<and> gm_has_TotalRejectedVotes example_gm = False \<and>
   gm_has_TotalVotes example_gm = False \<and>
   map_option (\<lambda>i. (info_total_valid i, info_rejected i, info_total i))
     (generate_map_entry no_float_str sum_list example_gm [] (''11'', ''037'') ''0'') = Some (50, 0, 50) \<and>
   map_option (\<lambda>i. map row_pct (info_rows i))
     (generate_map_entry no_float_str sum_list zero_valid_gm [] (''11'', ''037'') ''0'') = Some [Finite 0]"
  by (simp add: example_gm_def zero_valid_gm_def generate_map_eval py_round2_zero)




end
